theory Spec2Isabelle
  imports Complex_Main
begin

section \<open>Helpers of the streamlit apps: \<open>lightning_pose/apps/utils.py\<close>\<close>

text \<open>
  The module lists prediction files and model folders on disk and reshapes pandas tables.
  Python exceptions are values of \<open>error\<close>; a function that can raise returns
  \<open>error + 'a\<close> with \<open>Inl\<close> for the exception.
\<close>

datatype error =
    FileNotFoundError | IndexError | KeyError | ValueError | TypeError
  | UnboundLocalError | AttributeError | InvalidIndexError

subsection \<open>Python strings\<close>

text \<open>\<open>s.startswith(p)\<close>.\<close>

definition startswith :: "string \<Rightarrow> string \<Rightarrow> bool" where
  "startswith s p = (take (length p) s = p)"

text \<open>\<open>sub in s\<close>: \<open>sub\<close> occurs in \<open>s\<close> at some position.\<close>

fun str_in :: "string \<Rightarrow> string \<Rightarrow> bool" where
  "str_in sub [] = (sub = [])"
| "str_in sub (c # s) = (startswith (c # s) sub \<or> str_in sub s)"

text \<open>
  \<open>s.split(sep)[0]\<close> for a non-empty separator: the part of \<open>s\<close> before the first
  occurrence of \<open>sep\<close>, all of \<open>s\<close> when \<open>sep\<close> does not occur.
\<close>

fun split_first :: "string \<Rightarrow> string \<Rightarrow> string" where
  "split_first sep [] = []"
| "split_first sep (c # s) = (if startswith (c # s) sep then [] else c # split_first sep s)"

text \<open>\<open>os.sep\<close> on POSIX, and \<open>s.count(os.sep)\<close> as a Python int.\<close>

definition os_sep :: char where
  "os_sep = CHR ''/''"


text \<open>
  \<open>os.path.join(a, b)\<close> of \<open>posixpath\<close>: an absolute \<open>b\<close> replaces \<open>a\<close>; otherwise
  \<open>b\<close> is appended, after a separator unless \<open>a\<close> is empty or ends with one.
\<close>

definition os_path_join :: "string \<Rightarrow> string \<Rightarrow> string" where
  "os_path_join a b =
     (if startswith b [os_sep] then b
      else if a = [] \<or> last a = os_sep then a @ b
      else a @ [os_sep] @ b)"

subsection \<open>The file system\<close>

text \<open>
  A directory holds files and directories. The file system is the function that gives
  the entries of the directory at a path, \<open>None\<close> where the path is no directory.
\<close>

datatype entry = File string | Dir string "entry list"

type_synonym filesystem = "string \<Rightarrow> entry list option"

fun entry_name :: "entry \<Rightarrow> string" where
  "entry_name (File n) = n"
| "entry_name (Dir n sub) = n"

fun isfile :: "entry \<Rightarrow> bool" where
  "isfile (File n) = True"
| "isfile (Dir n sub) = False"

text \<open>
  \<open>[f for f in os.listdir(d) if os.path.isfile(os.path.join(d, f))]\<close>: the names of the
  plain files of \<open>d\<close> in listing order; \<open>os.listdir\<close> raises when \<open>d\<close> is missing.
\<close>

definition list_files :: "filesystem \<Rightarrow> string \<Rightarrow> error + string list" where
  "list_files fs d =
     (case fs d of
        None \<Rightarrow> Inl FileNotFoundError
      | Some es \<Rightarrow> Inr (map entry_name (filter isfile es)))"

subsection \<open>\<open>update_labeled_file_list\<close>\<close>

text \<open>
  The inner loop over the files of one folder. \<open>Path(file)\<close> of a bare file name is
  kept as the name.
\<close>

fun labeled_ret_files :: "bool \<Rightarrow> string list \<Rightarrow> string list" where
  "labeled_ret_files use_ood [] = []"
| "labeled_ret_files use_ood (file # model_preds) =
     (if str_in ''predictions'' file then
        (if \<not> str_in ''new'' file \<and> \<not> use_ood then file # labeled_ret_files use_ood model_preds
         else if str_in ''new'' file \<and> use_ood then file # labeled_ret_files use_ood model_preds
         else labeled_ret_files use_ood model_preds)
      else labeled_ret_files use_ood model_preds)"

text \<open>The outer loop: one list per folder; the first missing folder raises.\<close>

fun update_labeled_file_list :: "filesystem \<Rightarrow> string list \<Rightarrow> bool \<Rightarrow> error + string list list" where
  "update_labeled_file_list fs [] use_ood = Inr []"
| "update_labeled_file_list fs (model_pred_folder # folders) use_ood =
     (case list_files fs model_pred_folder of
        Inl e \<Rightarrow> Inl e
      | Inr model_preds \<Rightarrow>
          (case update_labeled_file_list fs folders use_ood of
             Inl e \<Rightarrow> Inl e
           | Inr per_model_preds \<Rightarrow>
               Inr (labeled_ret_files use_ood model_preds # per_model_preds)))"

text \<open>The selection the specification describes for one file name.\<close>

definition labeled_selected :: "bool \<Rightarrow> string \<Rightarrow> bool" where
  "labeled_selected use_ood file =
     (str_in ''predictions'' file \<and> (str_in ''new'' file = use_ood))"

definition example_fs_labeled :: filesystem where
  "example_fs_labeled d =
     (if d = ''m0''
      then Some [File ''m_predictions.csv'', File ''m_predictions_new.csv'', File ''other.csv'',
                 Dir ''video_preds'' []]
      else None)"

subsection \<open>\<open>get_all_videos\<close>\<close>

text \<open>
  The inner loop over the files of one \<open>video_preds\<close> directory; \<open>ret_videos\<close> is the
  Python set the loop adds to.
\<close>

fun add_videos :: "string set \<Rightarrow> string list \<Rightarrow> string set" where
  "add_videos ret_videos [] = ret_videos"
| "add_videos ret_videos (file # model_preds) =
     (if str_in ''temporal'' file then
        add_videos (insert (split_first ''_temporal_norm.csv'' file) ret_videos) model_preds
      else if \<not> str_in ''temporal'' file \<and> \<not> str_in ''pca'' file then
        add_videos (insert (split_first ''.csv'' file) ret_videos) model_preds
      else add_videos ret_videos model_preds)"

fun get_all_videos_loop :: "filesystem \<Rightarrow> string set \<Rightarrow> string list \<Rightarrow> error + string set" where
  "get_all_videos_loop fs ret_videos [] = Inr ret_videos"
| "get_all_videos_loop fs ret_videos (model_preds_folder # folders) =
     (case list_files fs (os_path_join model_preds_folder ''video_preds'') of
        Inl e \<Rightarrow> Inl e
      | Inr model_preds \<Rightarrow> get_all_videos_loop fs (add_videos ret_videos model_preds) folders)"

text \<open>
  \<open>list(ret_videos)\<close> lists the set in an order Python does not fix: the result is
  kept as the set.
\<close>

definition get_all_videos :: "filesystem \<Rightarrow> string list \<Rightarrow> error + string set" where
  "get_all_videos fs model_preds_folders = get_all_videos_loop fs {} model_preds_folders"

text \<open>The plain files of the \<open>video_preds\<close> directory of a folder.\<close>

definition video_pred_files :: "filesystem \<Rightarrow> string \<Rightarrow> string list" where
  "video_pred_files fs d =
     (case fs (os_path_join d ''video_preds'') of
        None \<Rightarrow> []
      | Some es \<Rightarrow> map entry_name (filter isfile es))"

text \<open>
  The identifier of a file as the specification words it: the name without the suffix
  \<open>_temporal_norm.csv\<close> when it ends so; else the name without a final \<open>.csv\<close> when
  neither "temporal" nor "pca" occurs in it; else none.
\<close>

definition endswith :: "string \<Rightarrow> string \<Rightarrow> bool" where
  "endswith s suf = (length suf \<le> length s \<and> drop (length s - length suf) s = suf)"

definition removesuffix :: "string \<Rightarrow> string \<Rightarrow> string" where
  "removesuffix s suf = (if endswith s suf then take (length s - length suf) s else s)"

definition spec_video_id :: "string \<Rightarrow> string option" where
  "spec_video_id file =
     (if endswith file ''_temporal_norm.csv'' then Some (removesuffix file ''_temporal_norm.csv'')
      else if \<not> str_in ''temporal'' file \<and> \<not> str_in ''pca'' file then Some (removesuffix file ''.csv'')
      else None)"

text \<open>
  The identifier the code derives: for a name with "temporal" in it, the part before
  the first \<open>_temporal_norm.csv\<close> (the whole name when there is none); for a name with
  neither "temporal" nor "pca", the part before the first \<open>.csv\<close>; else none.
\<close>

definition video_id :: "string \<Rightarrow> string option" where
  "video_id file =
     (if str_in ''temporal'' file then Some (split_first ''_temporal_norm.csv'' file)
      else if \<not> str_in ''pca'' file then Some (split_first ''.csv'' file)
      else None)"

definition video_ids :: "(string \<Rightarrow> string option) \<Rightarrow> string list \<Rightarrow> string set" where
  "video_ids ident files = {v. \<exists>f \<in> set files. ident f = Some v}"

definition example_fs_videos :: filesystem where
  "example_fs_videos d =
     (if d = ''m0/video_preds''
      then Some [File ''vid1_temporal_norm.csv'', File ''vid1.csv'', File ''vid2_pca_x.csv'']
      else if d = ''m1/video_preds''
      then Some [File ''vid3_temporal.csv'']
      else None)"

subsection \<open>\<open>get_model_folders\<close>\<close>

text \<open>
  \<open>os.walk(dir)\<close>, top down: the directory itself, then each of its subdirectories
  walked under the joined path, in listing order. Only the first component of each
  triple is used by the caller. A \<open>dir\<close> that cannot be listed yields nothing.
\<close>

fun walk_entry :: "string \<Rightarrow> entry \<Rightarrow> string list"
  and walk_entries :: "string \<Rightarrow> entry list \<Rightarrow> string list" where
  "walk_entry dir (File n) = []"
| "walk_entry dir (Dir n sub) = os_path_join dir n # walk_entries (os_path_join dir n) sub"
| "walk_entries dir [] = []"
| "walk_entries dir (e # es) = walk_entry dir e @ walk_entries dir es"





text \<open>
  The names of real directory entries are not empty and hold no separator.
\<close>

fun wf_entry :: "entry \<Rightarrow> bool" and wf_entries :: "entry list \<Rightarrow> bool" where
  "wf_entry (File n) = True"
| "wf_entry (Dir n sub) = (n \<noteq> [] \<and> os_sep \<notin> set n \<and> wf_entries sub)"
| "wf_entries [] = True"
| "wf_entries (e # es) = (wf_entry e \<and> wf_entries es)"

text \<open>The subdirectories of a listing, with their own listings.\<close>

fun subdirs :: "entry list \<Rightarrow> (string \<times> entry list) list" where
  "subdirs [] = []"
| "subdirs (File n # es) = subdirs es"
| "subdirs (Dir n sub # es) = (n, sub) # subdirs es"




subsection \<open>Tables\<close>

text \<open>
  A cell of a table is a float64 value or a string. A finite float is the rational
  number it stands for (\<open>Num\<close>); the two infinities and the missing value \<open>NaN\<close> are
  cells of their own. The model does not compute in floating point: where the code
  does (the mean of a row), the operation is a parameter of the model.
\<close>

datatype cell = Num rat | PosInf | NegInf | NaN | Str string

text \<open>
  A \<open>DataFrame\<close>: the labels of the rows (\<open>df.index\<close>) and the columns in order, each
  with its label and its cells from the first row to the last. Labels may repeat. The
  label type is a tuple of strings for a table with a multi-level header and a string
  for a flat one.
\<close>

record 'l frame =
  index :: "cell list"
  cols :: "('l \<times> cell list) list"

definition nrows :: "'l frame \<Rightarrow> nat" where
  "nrows df = length (index df)"

definition ncols :: "'l frame \<Rightarrow> nat" where
  "ncols df = length (cols df)"

definition columns :: "'l frame \<Rightarrow> 'l list" where
  "columns df = map fst (cols df)"

text \<open>Every column of a table has one cell per row.\<close>

definition wf_frame :: "'l frame \<Rightarrow> bool" where
  "wf_frame df = list_all (\<lambda>c. length (snd c) = nrows df) (cols df)"

text \<open>\<open>RangeIndex(n)\<close>: the labels 0, 1, ..., n - 1.\<close>

definition range_index :: "nat \<Rightarrow> cell list" where
  "range_index n = map (\<lambda>i. Num (of_nat i)) [0..<n]"

text \<open>
  Where pandas joins tables whose row indexes are equal, the rows are matched by
  position and the index is kept. For indexes that differ, pandas computes a joined
  index and, for each table, the row that each joined row comes from (none: the row is
  filled with \<open>NaN\<close>); how it does so depends on order, duplicates and its version, and
  is taken as a parameter of the model.
\<close>

type_synonym 'a aligner = "'a list list \<Rightarrow> error + ('a list \<times> nat option list list)"

definition take_rows :: "nat option list \<Rightarrow> cell list \<Rightarrow> cell list" where
  "take_rows src v =
     map (\<lambda>s. case s of None \<Rightarrow> NaN | Some i \<Rightarrow> (if i < length v then v ! i else NaN)) src"

subsection \<open>\<open>strip_cols_append_name\<close>\<close>

text \<open>\<open>sep.join(parts)\<close>.\<close>

fun py_join :: "string \<Rightarrow> string list \<Rightarrow> string" where
  "py_join sep [] = []"
| "py_join sep [x] = x"
| "py_join sep (x # y # xs) = x @ sep @ py_join sep (y # xs)"

text \<open>
  \<open>s.strip()\<close>: the characters for which \<open>str.isspace\<close> holds are removed at both
  ends. A character of the model is a code point below 256; among these Python counts
  as whitespace the ASCII ones and the two Latin-1 code points U+0085 and U+00A0.
\<close>

definition is_space :: "char \<Rightarrow> bool" where
  "is_space c = (c \<in> set [CHR '' '', CHR 0x09, CHR 0x0A, CHR 0x0B, CHR 0x0C, CHR 0x0D,
                           CHR 0x1C, CHR 0x1D, CHR 0x1E, CHR 0x1F, CHR 0x85, CHR 0xA0])"

definition py_strip :: "string \<Rightarrow> string" where
  "py_strip s = rev (dropWhile is_space (rev (dropWhile is_space s)))"

text \<open>
  The first assignment joins the levels of each header tuple and strips the result,
  the second appends the model name. The table passed in is changed in place and
  returned; \<open>concat_dfs\<close>, its only caller, passes a fresh copy.
\<close>

definition strip_cols_append_name :: "(string list) frame \<Rightarrow> string \<Rightarrow> string frame" where
  "strip_cols_append_name df name =
     \<lparr>index = index df,
      cols = map (\<lambda>(col, v). (col @ ''_'' @ name, v))
               (map (\<lambda>(col, v). (py_strip (py_join ''_'' col), v)) (cols df))\<rparr>"

subsection \<open>\<open>concat_dfs\<close>\<close>

text \<open>\<open>xs[0::3]\<close>; then \<open>xs[1::3]\<close> is \<open>stride3 (drop 1 xs)\<close>.\<close>

fun stride3 :: "'a list \<Rightarrow> 'a list" where
  "stride3 (x # y # z # xs) = x # stride3 xs"
| "stride3 (x # xs) = [x]"
| "stride3 [] = []"

text \<open>\<open>[c[0] for c in cs]\<close>: \<open>c[0]\<close> raises on an empty tuple.\<close>

fun first_levels :: "string list list \<Rightarrow> error + string list" where
  "first_levels [] = Inr []"
| "first_levels ([] # cs) = Inl IndexError"
| "first_levels ((x # c) # cs) =
     (case first_levels cs of Inl e \<Rightarrow> Inl e | Inr names \<Rightarrow> Inr (x # names))"

text \<open>\<open>pd.concat([a, b], axis=1)\<close>: the columns of \<open>a\<close>, then those of \<open>b\<close>.\<close>

definition concat_axis1 :: "cell aligner \<Rightarrow> 'l frame \<Rightarrow> 'l frame \<Rightarrow> error + 'l frame" where
  "concat_axis1 align a b =
     (if index a = index b then Inr \<lparr>index = index a, cols = cols a @ cols b\<rparr>
      else
        (case align [index a, index b] of
           Inr (ix, [src_a, src_b]) \<Rightarrow>
             Inr \<lparr>index = ix,
                  cols = map (\<lambda>(l, v). (l, take_rows src_a v)) (cols a)
                         @ map (\<lambda>(l, v). (l, take_rows src_b v)) (cols b)\<rparr>
         | Inr _ \<Rightarrow> Inl InvalidIndexError
         | Inl e \<Rightarrow> Inl e))"

text \<open>
  The loop over \<open>dframes.items()\<close>, a dict in insertion order. \<open>df_concat\<close> and
  \<open>base_colnames\<close> are not bound before the first pass: they are options, and reading
  an unbound one raises. \<open>dframe.copy()\<close> copies the table, so the tables of the
  dict stay as they are.
\<close>

fun concat_dfs_loop ::
  "cell aligner \<Rightarrow> (string \<times> (string list) frame) list \<Rightarrow> nat \<Rightarrow> string frame option
     \<Rightarrow> string list option \<Rightarrow> error + (string frame option \<times> string list option)" where
  "concat_dfs_loop align [] counter df_concat base_colnames = Inr (df_concat, base_colnames)"
| "concat_dfs_loop align ((model_name, dframe) # rest) counter df_concat base_colnames =
     (if counter = 0 then
        (case first_levels (stride3 (drop 1 (columns dframe))) of
           Inl e \<Rightarrow> Inl e
         | Inr names \<Rightarrow>
             concat_dfs_loop align rest (counter + 1)
               (Some (strip_cols_append_name dframe model_name)) (Some names))
      else
        (case df_concat of
           None \<Rightarrow> Inl UnboundLocalError
         | Some dc \<Rightarrow>
             (case concat_axis1 align dc (strip_cols_append_name dframe model_name) of
                Inl e \<Rightarrow> Inl e
              | Inr joined \<Rightarrow>
                  concat_dfs_loop align rest (counter + 1) (Some joined) base_colnames)))"

definition concat_dfs ::
  "cell aligner \<Rightarrow> (string \<times> (string list) frame) list \<Rightarrow> error + (string frame \<times> string list)" where
  "concat_dfs align dframes =
     (case concat_dfs_loop align dframes 0 None None of
        Inl e \<Rightarrow> Inl e
      | Inr (Some df_concat, Some base_colnames) \<Rightarrow> Inr (df_concat, base_colnames)
      | Inr _ \<Rightarrow> Inl UnboundLocalError)"

text \<open>The flat name of a header tuple in the table of a model.\<close>

definition flat_name :: "string \<Rightarrow> string list \<Rightarrow> string" where
  "flat_name model_name col = py_strip (py_join ''_'' col) @ ''_'' @ model_name"

text \<open>An aligner that rejects every join, and two small prediction tables.\<close>

definition no_align :: "cell aligner" where
  "no_align ixs = Inl InvalidIndexError"

definition example_preds_a :: "(string list) frame" where
  "example_preds_a =
     \<lparr>index = [Num 0, Num 1],
      cols = [([''scorer'', ''bodyparts''], [Str ''img0.png'', Str ''img1.png'']),
              ([''paw'', ''x''], [Num 1, Num 2]),
              ([''paw'', ''y''], [Num 3, Num 4]),
              ([''paw'', ''likelihood''], [Num (1 / 2), Num (3 / 4)]),
              ([''nose'', ''x''], [Num 5, Num 6]),
              ([''nose'', ''y''], [Num 7, Num 8]),
              ([''nose'', ''likelihood ''], [Num 1, NaN])]\<rparr>"

definition example_preds_b :: "(string list) frame" where
  "example_preds_b =
     \<lparr>index = [Num 0, Num 1],
      cols = [([''scorer'', ''bodyparts''], [Str ''img0.png'', Str ''img1.png'']),
              ([''paw'', ''x''], [Num 2, Num 2]),
              ([''paw'', ''y''], [Num 3, Num 3]),
              ([''paw'', ''likelihood''], [Num 1, Num 1])]\<rparr>"

text \<open>The cells that are strings.\<close>

fun is_str :: "cell \<Rightarrow> bool" where
  "is_str (Str s) = True"
| "is_str c = False"

subsection \<open>Reading and writing columns\<close>

text \<open>
  Storing one array under a label: every column of that label takes the array, and a
  new column is appended when there is none.
\<close>

definition put_col :: "'l frame \<Rightarrow> 'l \<Rightarrow> cell list \<Rightarrow> 'l frame" where
  "put_col df key value =
     (if key \<in> set (columns df)
      then df\<lparr>cols := map (\<lambda>(l, v). if l = key then (l, value) else (l, v)) (cols df)\<rparr>
      else df\<lparr>cols := cols df @ [(key, value)]\<rparr>)"

text \<open>
  Storing one scalar per column of a label: the first column of that label takes the
  first scalar in each of its \<open>n\<close> rows, the second column the second scalar, and so
  on.
\<close>

fun put_each :: "('l \<times> cell list) list \<Rightarrow> 'l \<Rightarrow> nat \<Rightarrow> cell list \<Rightarrow> ('l \<times> cell list) list" where
  "put_each [] key n xs = []"
| "put_each ((l, v) # cs) key n [] = (l, v) # put_each cs key n []"
| "put_each ((l, v) # cs) key n (x # xs) =
     (if l = key then (l, replicate n x) # put_each cs key n xs
      else (l, v) # put_each cs key n (x # xs))"

text \<open>The number of columns that carry a label.\<close>

definition dup_count :: "'l frame \<Rightarrow> 'l \<Rightarrow> nat" where
  "dup_count df key = length (filter (\<lambda>c. fst c = key) (cols df))"

text \<open>
  A table without rows takes its rows from the first non-empty array stored in it:
  the index becomes \<open>RangeIndex\<close> and the columns it has are filled with \<open>NaN\<close>.
\<close>

definition ensure_valid_index :: "'l frame \<Rightarrow> cell list \<Rightarrow> 'l frame" where
  "ensure_valid_index df value =
     (if index df = [] \<and> value \<noteq> []
      then \<lparr>index = range_index (length value),
            cols = map (\<lambda>(l, v). (l, replicate (length value) NaN)) (cols df)\<rparr>
      else df)"

text \<open>
  The usual path of \<open>df[key] = value\<close> for a list-like value: the cells are stored by
  position in every column of the label, and a wrong length raises.
\<close>

definition setitem_whole :: "'l frame \<Rightarrow> 'l \<Rightarrow> cell list \<Rightarrow> error + 'l frame" where
  "setitem_whole df key value =
     (if length value = nrows (ensure_valid_index df value)
      then Inr (put_col (ensure_valid_index df value) key value)
      else Inl ValueError)"

text \<open>
  \<open>df[key] = value\<close> for an array or an index. When several columns carry the label
  and the value has as many elements as there are such columns, pandas does not store
  the array in each of them: it stores element \<open>j\<close> of the value, as a scalar, in the
  \<open>j\<close>-th of these columns.
\<close>

definition setitem :: "'l frame \<Rightarrow> 'l \<Rightarrow> cell list \<Rightarrow> error + 'l frame" where
  "setitem df key value =
     (if 1 < dup_count df key \<and> dup_count df key = length value
      then Inr (df\<lparr>cols := put_each (cols df) key (nrows df) value\<rparr>)
      else setitem_whole df key value)"

text \<open>
  \<open>s[j]\<close> for a series and an integer \<open>j\<close>: the cell at the row labelled \<open>j\<close> when
  the index is numeric (none raises, several give a series, which the assignment below
  rejects), and the cell at position \<open>j\<close> when the index holds strings (pandas 2; an
  index that mixes numbers and strings is read by position here).
\<close>

definition series_item :: "cell list \<Rightarrow> cell list \<Rightarrow> nat \<Rightarrow> error + cell" where
  "series_item ix v j =
     (if ix \<noteq> [] \<and> \<not> list_ex is_str ix then
        (case filter (\<lambda>p. ix ! p = Num (of_nat j)) [0..<length ix] of
           [] \<Rightarrow> Inl KeyError
         | [p] \<Rightarrow> Inr (v ! p)
         | p # q # ps \<Rightarrow> Inl ValueError)
      else if j < length v then Inr (v ! j)
      else Inl IndexError)"

fun series_items :: "cell list \<Rightarrow> cell list \<Rightarrow> nat list \<Rightarrow> error + cell list" where
  "series_items ix v [] = Inr []"
| "series_items ix v (j # js) =
     (case series_item ix v j of
        Inl e \<Rightarrow> Inl e
      | Inr x \<Rightarrow> (case series_items ix v js of Inl e \<Rightarrow> Inl e | Inr xs \<Rightarrow> Inr (x # xs)))"

text \<open>
  \<open>df[key] = s\<close> for a series \<open>s\<close> over the index of \<open>df\<close>, with the cells \<open>value\<close>:
  as for an array, but the scalar of the \<open>j\<close>-th column of a repeated label is \<open>s[j]\<close>.
\<close>

definition setitem_series :: "'l frame \<Rightarrow> 'l \<Rightarrow> cell list \<Rightarrow> error + 'l frame" where
  "setitem_series df key value =
     (if 1 < dup_count df key \<and> dup_count df key = length value
      then
        (case series_items (index df) value [0..<length value] of
           Inl e \<Rightarrow> Inl e
         | Inr xs \<Rightarrow> Inr (df\<lparr>cols := put_each (cols df) key (nrows df) xs\<rparr>))
      else setitem_whole df key value)"

text \<open>\<open>df[key] = c\<close> for a scalar: the scalar in every row.\<close>

definition setitem_scalar :: "'l frame \<Rightarrow> 'l \<Rightarrow> cell \<Rightarrow> 'l frame" where
  "setitem_scalar df key c = put_col df key (replicate (nrows df) c)"

text \<open>
  \<open>df[keys]\<close> for a list of labels: the columns of each label in the order of the
  list; a label that no column has raises.
\<close>

definition getitem_cols :: "'l frame \<Rightarrow> 'l list \<Rightarrow> error + 'l frame" where
  "getitem_cols df keys =
     (if list_all (\<lambda>k. k \<in> set (columns df)) keys
      then Inr \<lparr>index = index df,
                cols = concat (map (\<lambda>k. filter (\<lambda>c. fst c = k) (cols df)) keys)\<rparr>
      else Inl KeyError)"

text \<open>\<open>df.to_numpy()\<close>: the rows of the table.\<close>

definition frame_rows :: "'l frame \<Rightarrow> cell list list" where
  "frame_rows df = map (\<lambda>i. map (\<lambda>c. snd c ! i) (cols df)) [0..<nrows df]"

text \<open>
  \<open>mean(axis=1)\<close>: a string cannot be added to a number (pandas 2); a row in which
  no value is present (no cell, or \<open>NaN\<close> only) has the mean \<open>NaN\<close>; for any other
  row the mean is what float64 arithmetic gives for its cells, \<open>NaN\<close> cells skipped,
  with its rounding and its overflow to an infinity. That operation is the parameter
  \<open>fmean\<close>, a function of the cells of the row.
\<close>

type_synonym float_mean = "cell list \<Rightarrow> cell"

definition row_mean :: "float_mean \<Rightarrow> cell list \<Rightarrow> error + cell" where
  "row_mean fmean cs =
     (if list_ex is_str cs then Inl TypeError
      else if list_all (\<lambda>c. c = NaN) cs then Inr NaN
      else Inr (fmean cs))"

fun mean_rows :: "float_mean \<Rightarrow> cell list list \<Rightarrow> error + cell list" where
  "mean_rows fmean [] = Inr []"
| "mean_rows fmean (r # rs) =
     (case row_mean fmean r of
        Inl e \<Rightarrow> Inl e
      | Inr m \<Rightarrow> (case mean_rows fmean rs of Inl e \<Rightarrow> Inl e | Inr ms \<Rightarrow> Inr (m # ms)))"

definition mean_axis1 :: "float_mean \<Rightarrow> 'l frame \<Rightarrow> error + cell list" where
  "mean_axis1 fmean df = mean_rows fmean (frame_rows df)"

text \<open>
  The mean in exact arithmetic, for rows on which float64 arithmetic is exact: the sum
  of the finite numbers divided by their count, an infinity when one sign of infinity
  is present, and \<open>NaN\<close> when both are or no value is.
\<close>

fun nums :: "cell list \<Rightarrow> rat list" where
  "nums [] = []"
| "nums (Num x # cs) = x # nums cs"
| "nums (c # cs) = nums cs"

definition arith_mean :: "rat list \<Rightarrow> rat" where
  "arith_mean xs = sum_list xs / of_nat (length xs)"

definition exact_mean :: float_mean where
  "exact_mean cs =
     (if PosInf \<in> set cs \<and> NegInf \<in> set cs then NaN
      else if PosInf \<in> set cs then PosInf
      else if NegInf \<in> set cs then NegInf
      else if nums cs = [] then NaN
      else Num (arith_mean (nums cs)))"

text \<open>\<open>df.rename(columns={old: new}, inplace=True)\<close>.\<close>

definition rename_columns :: "'l frame \<Rightarrow> 'l \<Rightarrow> 'l \<Rightarrow> 'l frame" where
  "rename_columns df old new = df\<lparr>cols := map (\<lambda>(l, v). (if l = old then new else l, v)) (cols df)\<rparr>"

text \<open>The cells of the first column with a label.\<close>

definition column_cells :: "'l frame \<Rightarrow> 'l \<Rightarrow> cell list option" where
  "column_cells df key = map_of (cols df) key"

subsection \<open>\<open>get_precomputed_error\<close>\<close>

text \<open>
  \<open>df_ = df\<close> binds a second name to the table of the caller, so each assignment to
  \<open>df_\<close> and the in-place \<open>rename\<close> change that table. The model returns the table
  of the caller as the call leaves it, and what the call returns or raises. The
  returned table is that same table.
\<close>

definition get_precomputed_error ::
  "float_mean \<Rightarrow> string frame \<Rightarrow> string list \<Rightarrow> string
     \<Rightarrow> string frame \<times> (error + string frame)" where
  "get_precomputed_error fmean df keypoint_names model_name =
     (let df1 = setitem_scalar df ''model_name'' (Str model_name) in
      case getitem_cols df1 (butlast keypoint_names) of
        Inl e \<Rightarrow> (df1, Inl e)
      | Inr sel \<Rightarrow>
          (case mean_axis1 fmean sel of
             Inl e \<Rightarrow> (df1, Inl e)
           | Inr m \<Rightarrow>
               (case setitem_series df1 ''mean'' m of
                  Inl e \<Rightarrow> (df1, Inl e)
                | Inr df2 \<Rightarrow>
                    (case columns df2 of
                       [] \<Rightarrow> (df2, Inl IndexError)
                     | c0 # cs \<Rightarrow>
                         (rename_columns df2 c0 ''img_file'',
                          Inr (rename_columns df2 c0 ''img_file''))))))"

subsection \<open>\<open>compute_confidence\<close>\<close>

text \<open>
  \<open>a.reshape(n, -1, 3)\<close> of an array of \<open>n\<close> rows of \<open>w\<close> cells: numpy cannot infer
  the middle dimension when \<open>3 * n\<close> is zero or does not divide the size; otherwise
  each row is cut into triplets.
\<close>

fun chunks3 :: "'a list \<Rightarrow> 'a list list" where
  "chunks3 (x # y # z # xs) = [x, y, z] # chunks3 xs"
| "chunks3 xs = []"

definition reshape3 :: "nat \<Rightarrow> nat \<Rightarrow> cell list list \<Rightarrow> error + cell list list list" where
  "reshape3 n w rows =
     (if n * 3 = 0 \<or> (n * w) mod (n * 3) \<noteq> 0 then Inl ValueError
      else Inr (map chunks3 rows))"

text \<open>
  The loop \<open>df_[col] = results[:, c]\<close> over \<open>enumerate(keypoint_names)\<close>; \<open>k\<close> is the
  number of columns of \<open>results\<close>, and a \<open>c\<close> beyond it raises.
\<close>

fun assign_keypoints ::
  "string frame \<Rightarrow> nat \<Rightarrow> cell list list \<Rightarrow> nat \<Rightarrow> string list \<Rightarrow> error + string frame" where
  "assign_keypoints dfr k results c [] = Inr dfr"
| "assign_keypoints dfr k results c (col # keypoint_names) =
     (if k \<le> c then Inl IndexError
      else
        (case setitem dfr col (map (\<lambda>r. r ! c) results) of
           Inl e \<Rightarrow> Inl e
         | Inr df' \<Rightarrow> assign_keypoints df' k results (c + 1) keypoint_names))"

text \<open>\<open>df.iloc[:, :-1]\<close> and \<open>pd.DataFrame(columns=names)\<close>.\<close>

definition iloc_butlast :: "'l frame \<Rightarrow> 'l frame" where
  "iloc_butlast df = df\<lparr>cols := butlast (cols df)\<rparr>"

definition empty_frame :: "'l list \<Rightarrow> 'l frame" where
  "empty_frame names = \<lparr>index = [], cols = map (\<lambda>k. (k, [])) names\<rparr>"

text \<open>
  The steps after the reshape, on the number \<open>k\<close> of triplets per row, the array
  \<open>results = tmp[:, :, 2]\<close> and the trailing column (\<open>None\<close> when there is none).
\<close>

definition collect_results ::
  "float_mean \<Rightarrow> cell list \<Rightarrow> nat \<Rightarrow> cell list list \<Rightarrow> cell list option \<Rightarrow> string list
     \<Rightarrow> string \<Rightarrow> error + string frame" where
  "collect_results fmean df_index k results set_col keypoint_names model_name =
     (case assign_keypoints (empty_frame keypoint_names) k results 0 keypoint_names of
        Inl e \<Rightarrow> Inl e
      | Inr df1 \<Rightarrow>
          (case getitem_cols (setitem_scalar df1 ''model_name'' (Str model_name))
                  (butlast keypoint_names) of
             Inl e \<Rightarrow> Inl e
           | Inr sel \<Rightarrow>
               (case mean_axis1 fmean sel of
                  Inl e \<Rightarrow> Inl e
                | Inr m \<Rightarrow>
                    (case setitem_series (setitem_scalar df1 ''model_name'' (Str model_name))
                            ''mean'' m of
                       Inl e \<Rightarrow> Inl e
                     | Inr df3 \<Rightarrow>
                         (case set_col of
                            None \<Rightarrow> Inr df3
                          | Some s \<Rightarrow>
                              (case setitem df3 ''set'' s of
                                 Inl e \<Rightarrow> Inl e
                               | Inr df4 \<Rightarrow> setitem df4 ''img_file'' df_index))))))"

definition compute_confidence ::
  "float_mean \<Rightarrow> string frame \<Rightarrow> string list \<Rightarrow> string \<Rightarrow> error + string frame" where
  "compute_confidence fmean df keypoint_names model_name =
     (if ncols df mod 3 = 1 then
        (case reshape3 (nrows df) (ncols df - 1) (frame_rows (iloc_butlast df)) of
           Inl e \<Rightarrow> Inl e
         | Inr tmp \<Rightarrow>
             collect_results fmean (index df) ((ncols df - 1) div 3)
               (map (map (\<lambda>t. t ! 2)) tmp)
               (Some (snd (last (cols df)))) keypoint_names model_name)
      else
        (case reshape3 (nrows df) (ncols df) (frame_rows df) of
           Inl e \<Rightarrow> Inl e
         | Inr tmp \<Rightarrow>
             collect_results fmean (index df) (ncols df div 3) (map (map (\<lambda>t. t ! 2)) tmp)
               None keypoint_names model_name))"

text \<open>
  A table of pixel errors with the keypoints A, B and C, and a table of predictions
  for them with a trailing column of set labels.
\<close>

definition example_errors :: "string frame" where
  "example_errors =
     \<lparr>index = [Num 0],
      cols = [(''Unnamed: 0'', [Str ''img0.png'']),
              (''A'', [Num 1]), (''B'', [Num 2]), (''C'', [Num 3])]\<rparr>"

definition example_triplets :: "string frame" where
  "example_triplets =
     \<lparr>index = [Str ''img0.png'', Str ''img1.png''],
      cols = [(''A_x'', [Num 10, Num 11]), (''A_y'', [Num 20, Num 21]), (''A_l'', [Num 1, Num 3]),
              (''B_x'', [Num 12, Num 13]), (''B_y'', [Num 22, Num 23]), (''B_l'', [Num 2, Num 4]),
              (''C_x'', [Num 14, Num 15]), (''C_y'', [Num 24, Num 25]), (''C_l'', [Num 3, Num 9]),
              (''set'', [Str ''train'', Str ''test''])]\<rparr>"

subsection \<open>The mean column, as specified\<close>

text \<open>
  The cells of row \<open>i\<close> in the columns of \<open>df\<close> that carry one of the labels \<open>keys\<close>.
\<close>

definition keypoint_row :: "'l frame \<Rightarrow> 'l list \<Rightarrow> nat \<Rightarrow> cell list" where
  "keypoint_row df keys i =
     map (\<lambda>c. snd c ! i) (concat (map (\<lambda>k. filter (\<lambda>c. fst c = k) (cols df)) keys))"

text \<open>
  The mean of the values present in a list of cells: \<open>NaN\<close> when none is, and the
  float64 mean otherwise.
\<close>

definition mean_of_present :: "float_mean \<Rightarrow> cell list \<Rightarrow> cell" where
  "mean_of_present fmean cs = (if list_all (\<lambda>c. c = NaN) cs then NaN else fmean cs)"

text \<open>
  The table \<open>out\<close> has a column \<open>mean\<close> that holds, for each row of \<open>src\<close>, the mean of
  the cells of that row in the columns of \<open>src\<close> labelled by \<open>keys\<close>.
\<close>

definition has_row_means ::
  "float_mean \<Rightarrow> string frame \<Rightarrow> string frame \<Rightarrow> string list \<Rightarrow> bool" where
  "has_row_means fmean out src keys =
     (case column_cells out ''mean'' of
        None \<Rightarrow> False
      | Some ms \<Rightarrow>
          length ms = nrows src
          \<and> list_all (\<lambda>i. ms ! i = mean_of_present fmean (keypoint_row src keys i))
               [0..<nrows src])"

text \<open>
  The two example tables after the calls with the keypoints A, B and C; the first one
  for any mean \<open>mu\<close> of its row, the second one for the exact mean.
\<close>

definition example_errors_after :: "cell \<Rightarrow> string frame" where
  "example_errors_after mu =
     \<lparr>index = [Num 0],
      cols = [(''img_file'', [Str ''img0.png'']), (''A'', [Num 1]), (''B'', [Num 2]),
              (''C'', [Num 3]), (''model_name'', [Str ''m0'']), (''mean'', [mu])]\<rparr>"

text \<open>
  A table of pixel errors in which two columns are called \<open>mean\<close> already, and what
  the call leaves of it.
\<close>

definition example_two_means :: "string frame" where
  "example_two_means =
     \<lparr>index = [Num 0, Num 1],
      cols = [(''i'', [Str ''img0.png'', Str ''img1.png'']),
              (''A'', [Num 1, Num 3]), (''B'', [Num 2, Num 5]),
              (''mean'', [Num 0, Num 0]), (''mean'', [Num 0, Num 0])]\<rparr>"

definition example_two_means_out :: "string frame" where
  "example_two_means_out =
     \<lparr>index = [Num 0, Num 1],
      cols = [(''img_file'', [Str ''img0.png'', Str ''img1.png'']),
              (''A'', [Num 1, Num 3]), (''B'', [Num 2, Num 5]),
              (''mean'', [Num (3 / 2), Num (3 / 2)]), (''mean'', [Num 4, Num 4]),
              (''model_name'', [Str ''m0'', Str ''m0''])]\<rparr>"

definition example_confidence :: "string frame" where
  "example_confidence =
     \<lparr>index = [Num 0, Num 1],
      cols = [(''A'', [Num 1, Num 3]), (''B'', [Num 2, Num 4]), (''C'', [Num 3, Num 9]),
              (''model_name'', [Str ''m0'', Str ''m0'']),
              (''mean'', [Num (3 / 2), Num (7 / 2)]),
              (''set'', [Str ''train'', Str ''test'']),
              (''img_file'', [Str ''img0.png'', Str ''img1.png''])]\<rparr>"

subsection \<open>\<open>get_df_scatter\<close>\<close>


















text \<open>No cell of the table is a string.\<close>

definition no_str :: "'l frame \<Rightarrow> bool" where
  "no_str f = list_all (\<lambda>c. \<not> list_ex is_str (snd c)) (cols f)"

section \<open>Theorems\<close>

lemma labeled_ret_files_filter:
  "labeled_ret_files use_ood fl = filter (labeled_selected use_ood) fl"
  by (induction fl) (auto simp: labeled_selected_def)

text \<open>
  C7. When every folder can be listed, \<open>update_labeled_file_list\<close> returns one list per
  folder, in order: the plain files of the folder whose name contains "predictions" and
  for which ("new" occurs in the name) = use_ood, in listing order. A folder that cannot
  be listed makes the call raise.
\<close>

theorem update_labeled_file_list_selects:
  "update_labeled_file_list fs folders use_ood =
     (if \<forall>d \<in> set folders. fs d \<noteq> None
      then Inr (map (\<lambda>d. filter (labeled_selected use_ood)
                           (map entry_name (filter isfile (the (fs d))))) folders)
      else Inl FileNotFoundError)"
proof (induction folders)
  case Nil
  show ?case by simp
next
  case (Cons d ds)
  show ?case
  proof (cases "fs d")
    case None
    then show ?thesis by (simp add: list_files_def)
  next
    case (Some es)
    then show ?thesis
      using Cons.IH by (simp add: list_files_def labeled_ret_files_filter)
  qed
qed

theorem update_labeled_file_list_selects_witness:
  "example_fs_labeled ''m0'' \<noteq> None
   \<and> update_labeled_file_list example_fs_labeled [''m0''] False = Inr [[''m_predictions.csv'']]
   \<and> update_labeled_file_list example_fs_labeled [''m0''] True = Inr [[''m_predictions_new.csv'']]"
  using update_labeled_file_list_selects [of example_fs_labeled "[''m0'']" False]
        update_labeled_file_list_selects [of example_fs_labeled "[''m0'']" True]
  by (simp add: example_fs_labeled_def labeled_selected_def startswith_def)


lemma add_videos_ids: "add_videos R fl = R \<union> video_ids video_id fl"
  by (induction fl arbitrary: R) (auto simp: video_ids_def video_id_def)

lemma get_all_videos_loop_ids:
  "get_all_videos_loop fs R folders =
     (if list_all (\<lambda>d. fs (os_path_join d ''video_preds'') \<noteq> None) folders
      then Inr (R \<union> (\<Union>d \<in> set folders. video_ids video_id (video_pred_files fs d)))
      else Inl FileNotFoundError)"
proof (induction folders arbitrary: R)
  case Nil
  show ?case by simp
next
  case (Cons d ds)
  show ?case
  proof (cases "fs (os_path_join d ''video_preds'')")
    case None
    then show ?thesis by (simp add: list_files_def)
  next
    case (Some es)
    then show ?thesis
      by (auto simp: list_files_def Cons.IH add_videos_ids video_pred_files_def)
  qed
qed

lemma video_ids_Nil: "video_ids ident [] = {}"
  by (simp add: video_ids_def)

lemma video_ids_Cons:
  "video_ids ident (f # fl) =
     (case ident f of None \<Rightarrow> video_ids ident fl | Some v \<Rightarrow> insert v (video_ids ident fl))"
  by (auto simp: video_ids_def split: option.splits)

text \<open>
  C5, as stated, fails: a name with "temporal" in it that does not end in
  \<open>_temporal_norm.csv\<close> is skipped by the description, while the code adds the whole
  name, extension included, as a video.
\<close>

theorem get_all_videos_counterexample:
  "get_all_videos example_fs_videos [''m1''] = Inr {''vid3_temporal.csv''}
   \<and> spec_video_id ''vid3_temporal.csv'' = None"
  by (simp add: get_all_videos_def example_fs_videos_def list_files_def os_path_join_def
      os_sep_def startswith_def spec_video_id_def endswith_def)

text \<open>
  C5, amended. When every \<open>video_preds\<close> directory can be listed, \<open>get_all_videos\<close>
  returns the set of the identifiers of its plain files over all folders, where the
  identifier of a name containing "temporal" is the part before the first
  \<open>_temporal_norm.csv\<close> (the whole name when it has none), that of a name containing
  neither "temporal" nor "pca" is the part before the first \<open>.csv\<close>, and any other
  name gives none. A directory that cannot be listed makes the call raise.
\<close>

theorem get_all_videos_ids:
  "get_all_videos fs folders =
     (if list_all (\<lambda>d. fs (os_path_join d ''video_preds'') \<noteq> None) folders
      then Inr (\<Union>d \<in> set folders. video_ids video_id (video_pred_files fs d))
      else Inl FileNotFoundError)"
  by (simp add: get_all_videos_def get_all_videos_loop_ids)

theorem get_all_videos_ids_witness:
  "get_all_videos example_fs_videos [''m0''] = Inr {''vid1''}
   \<and> get_all_videos example_fs_videos [''m0'', ''m1''] = Inr {''vid3_temporal.csv'', ''vid1''}
   \<and> get_all_videos example_fs_videos [''m0'', ''m2''] = Inl FileNotFoundError"
  using get_all_videos_ids [of example_fs_videos "[''m0'']"]
        get_all_videos_ids [of example_fs_videos "[''m0'', ''m1'']"]
        get_all_videos_ids [of example_fs_videos "[''m0'', ''m2'']"]
  by (simp add: example_fs_videos_def video_pred_files_def video_ids_Cons video_ids_Nil
      video_id_def os_path_join_def os_sep_def startswith_def)


lemma walk_entries_subdirs:
  "walk_entries d es =
     concat (map (\<lambda>(n, sub). os_path_join d n # walk_entries (os_path_join d n) sub) (subdirs es))"
  by (induction es rule: subdirs.induct) auto

lemma wf_entries_subdirs:
  "wf_entries es \<Longrightarrow> (n, sub) \<in> set (subdirs es) \<Longrightarrow> n \<noteq> [] \<and> os_sep \<notin> set n \<and> wf_entries sub"
  by (induction es rule: subdirs.induct) auto












subsection \<open>\<open>concat_dfs\<close>\<close>

text \<open>
  C10. Called with an empty mapping, \<open>concat_dfs\<close> never runs the loop body, its two
  result variables stay unbound, and the \<open>return\<close> raises \<open>UnboundLocalError\<close>: it
  does not return an empty table and an empty list of names.
\<close>

theorem concat_dfs_empty_unbound: "concat_dfs align [] = Inl UnboundLocalError"
  by (simp add: concat_dfs_def)

lemma stride3_nth:
  "stride3 xs = map (\<lambda>i. xs ! (3 * i)) [0..<(length xs + 2) div 3]"
proof (induction xs rule: stride3.induct)
  case (1 x y z xs)
  have "(length (x # y # z # xs) + 2) div 3 = Suc ((length xs + 2) div 3)"
    by simp
  then have "[0..<(length (x # y # z # xs) + 2) div 3] = 0 # map Suc [0..<(length xs + 2) div 3]"
    by (simp only: upt_conv_Cons map_Suc_upt zero_less_Suc)
  then show ?case using 1 by (simp add: comp_def del: upt_Suc)
qed simp_all

lemma stride3_drop1_nth:
  "stride3 (drop 1 xs) = map (\<lambda>i. xs ! (3 * i + 1)) [0..<(length xs + 1) div 3]"
proof (cases xs)
  case Nil
  then show ?thesis by simp
next
  case (Cons x ys)
  then show ?thesis by (simp add: stride3_nth)
qed

lemma first_levels_hd:
  "first_levels cs = Inr names \<Longrightarrow> names = map hd cs \<and> [] \<notin> set cs"
  by (induction cs arbitrary: names rule: first_levels.induct) (auto split: sum.splits)

lemma first_levels_total:
  "[] \<notin> set cs \<Longrightarrow> first_levels cs = Inr (map hd cs)"
  by (induction cs rule: first_levels.induct) auto

lemma set_stride3: "set (stride3 xs) \<subseteq> set xs"
  by (induction xs rule: stride3.induct) auto

lemma columns_strip_cols_append_name:
  "columns (strip_cols_append_name d m) = map (flat_name m) (columns d)"
  by (simp add: columns_def strip_cols_append_name_def flat_name_def comp_def case_prod_beta)

lemma index_strip_cols_append_name: "index (strip_cols_append_name d m) = index d"
  by (simp add: strip_cols_append_name_def)

lemma ncols_strip_cols_append_name: "ncols (strip_cols_append_name d m) = ncols d"
  by (simp add: strip_cols_append_name_def ncols_def)

lemma concat_axis1_columns:
  "concat_axis1 al a b = Inr r \<Longrightarrow> columns r = columns a @ columns b"
  by (auto simp: concat_axis1_def columns_def comp_def case_prod_beta
      split: if_splits sum.splits prod.splits list.splits)

lemma concat_axis1_same_index:
  "index a = index b \<Longrightarrow> concat_axis1 al a b = Inr \<lparr>index = index a, cols = cols a @ cols b\<rparr>"
  by (simp add: concat_axis1_def)

lemma concat_dfs_loop_columns:
  "concat_dfs_loop al rest counter (Some dc) bc = Inr (x, y) \<Longrightarrow> 0 < counter \<Longrightarrow>
     \<exists>out. x = Some out \<and> y = bc \<and>
       columns out = columns dc @ concat (map (\<lambda>(m, d). map (flat_name m) (columns d)) rest)"
proof (induction rest arbitrary: dc counter)
  case Nil
  then show ?case by auto
next
  case (Cons md rest)
  obtain m d where md: "md = (m, d)" by (cases md)
  from Cons.prems obtain j where
    j: "concat_axis1 al dc (strip_cols_append_name d m) = Inr j"
    and l: "concat_dfs_loop al rest (counter + 1) (Some j) bc = Inr (x, y)"
    by (auto simp: md split: sum.splits)
  from Cons.IH [OF l] obtain out where
    "x = Some out" "y = bc"
    "columns out = columns j @ concat (map (\<lambda>(m, d). map (flat_name m) (columns d)) rest)"
    by auto
  then show ?case
    using concat_axis1_columns [OF j] by (simp add: md columns_strip_cols_append_name)
qed

lemma concat_dfs_loop_same_index:
  "0 < counter \<Longrightarrow> list_all (\<lambda>(m, d). index d = index dc) rest \<Longrightarrow>
     \<exists>out. concat_dfs_loop al rest counter (Some dc) bc = Inr (Some out, bc)
       \<and> index out = index dc
       \<and> ncols out = ncols dc + sum_list (map (\<lambda>(m, d). ncols d) rest)"
proof (induction rest arbitrary: dc counter)
  case Nil
  then show ?case by simp
next
  case (Cons md rest)
  obtain m d where md: "md = (m, d)" by (cases md)
  let ?j = "\<lparr>index = index dc, cols = cols dc @ cols (strip_cols_append_name d m)\<rparr>"
  from Cons.prems have ix: "index d = index dc"
    and rest: "list_all (\<lambda>(m, d). index d = index ?j) rest"
    by (simp_all add: md)
  have j: "concat_axis1 al dc (strip_cols_append_name d m) = Inr ?j"
    using ix by (simp add: concat_axis1_same_index index_strip_cols_append_name)
  from Cons.IH [of "counter + 1" ?j, OF _ rest] obtain out where
    "concat_dfs_loop al rest (counter + 1) (Some ?j) bc = Inr (Some out, bc)"
    "index out = index ?j"
    "ncols out = ncols ?j + sum_list (map (\<lambda>(m, d). ncols d) rest)"
    by auto
  then show ?case
    using Cons.prems(1) j
    by (simp add: md ncols_def strip_cols_append_name_def)
qed

text \<open>
  C3. Whenever \<open>concat_dfs\<close> returns for a mapping whose first table is \<open>dframe\<close>,
  the names it returns are the first header levels of the columns of \<open>dframe\<close> at the
  positions 1, 4, 7, ..., in that order, and the columns of the merged table are, table
  after table in the order of the mapping, the flat names of the columns of each table:
  the header levels joined with "_", stripped of whitespace at both ends, followed by
  "_" and the model name of the table.
\<close>

theorem concat_dfs_names_and_columns:
  assumes "concat_dfs align ((model_name, dframe) # rest) = Inr (out, names)"
  shows "names = map (\<lambda>i. hd (columns dframe ! (3 * i + 1))) [0..<(ncols dframe + 1) div 3]
    \<and> [] \<notin> set (map (\<lambda>i. columns dframe ! (3 * i + 1)) [0..<(ncols dframe + 1) div 3])
    \<and> columns out =
        concat (map (\<lambda>(m, d). map (flat_name m) (columns d)) ((model_name, dframe) # rest))
    \<and> flat_name m [a, b] = py_strip (a @ ''_'' @ b) @ ''_'' @ m"
proof -
  from assms obtain x y where
    l: "concat_dfs_loop align ((model_name, dframe) # rest) 0 None None = Inr (x, y)"
    and x: "x = Some out" and y: "y = Some names"
    by (auto simp: concat_dfs_def split: sum.splits option.splits)
  from l obtain ns where
    ns: "first_levels (stride3 (drop 1 (columns dframe))) = Inr ns"
    and l': "concat_dfs_loop align rest 1
               (Some (strip_cols_append_name dframe model_name)) (Some ns) = Inr (x, y)"
    by (auto split: sum.splits)
  from concat_dfs_loop_columns [OF l'] x y have
    names: "names = ns"
    and cols: "columns out = columns (strip_cols_append_name dframe model_name)
       @ concat (map (\<lambda>(m, d). map (flat_name m) (columns d)) rest)"
    by auto
  have len: "length (columns dframe) = ncols dframe" by (simp add: columns_def ncols_def)
  from first_levels_hd [OF ns] have
    "ns = map hd (stride3 (drop 1 (columns dframe)))" "[] \<notin> set (stride3 (drop 1 (columns dframe)))"
    by simp_all
  then have "ns = map (\<lambda>i. hd (columns dframe ! (3 * i + 1))) [0..<(ncols dframe + 1) div 3]"
    and "[] \<notin> set (map (\<lambda>i. columns dframe ! (3 * i + 1)) [0..<(ncols dframe + 1) div 3])"
    unfolding stride3_drop1_nth len by (simp_all add: comp_def)
  then show ?thesis
    using names cols by (simp add: columns_strip_cols_append_name flat_name_def)
qed

text \<open>
  C2. For a non-empty mapping whose tables all have the row index of the first one
  (header tuples are never empty), \<open>concat_dfs\<close> returns a merged table with the row
  count of the inputs and as many columns as the tables of the mapping have together.
\<close>

theorem concat_dfs_shape:
  assumes "dframes = (model_name, dframe) # rest"
    and "list_all (\<lambda>(m, d). index d = index dframe) rest"
    and "[] \<notin> set (columns dframe)"
  shows "\<exists>out names. concat_dfs align dframes = Inr (out, names)
    \<and> nrows out = nrows dframe
    \<and> ncols out = sum_list (map (\<lambda>(m, d). ncols d) dframes)"
proof -
  have "[] \<notin> set (stride3 (drop 1 (columns dframe)))"
    using assms(3) set_stride3 [of "drop 1 (columns dframe)"] set_drop_subset [of 1 "columns dframe"]
    by blast
  then have ns: "first_levels (stride3 (drop 1 (columns dframe)))
      = Inr (map hd (stride3 (drop 1 (columns dframe))))"
    by (rule first_levels_total)
  let ?dc = "strip_cols_append_name dframe model_name"
  have "list_all (\<lambda>(m, d). index d = index ?dc) rest"
    using assms(2) by (simp add: index_strip_cols_append_name)
  from concat_dfs_loop_same_index [OF _ this, of 1 align "Some (map hd (stride3 (drop 1 (columns dframe))))"]
  obtain out where
    "concat_dfs_loop align rest 1 (Some ?dc) (Some (map hd (stride3 (drop 1 (columns dframe)))))
       = Inr (Some out, Some (map hd (stride3 (drop 1 (columns dframe)))))"
    "index out = index ?dc"
    "ncols out = ncols ?dc + sum_list (map (\<lambda>(m, d). ncols d) rest)"
    by auto
  then show ?thesis
    using ns assms(1)
    by (simp add: concat_dfs_def nrows_def index_strip_cols_append_name ncols_strip_cols_append_name)
qed

theorem concat_dfs_names_and_columns_witness:
  "\<exists>out. concat_dfs no_align [(''m0'', example_preds_a), (''m1'', example_preds_b)]
           = Inr (out, [''paw'', ''nose''])
     \<and> columns out =
         [''scorer_bodyparts_m0'', ''paw_x_m0'', ''paw_y_m0'', ''paw_likelihood_m0'',
          ''nose_x_m0'', ''nose_y_m0'', ''nose_likelihood_m0'',
          ''scorer_bodyparts_m1'', ''paw_x_m1'', ''paw_y_m1'', ''paw_likelihood_m1'']"
proof -
  obtain out names where
    r: "concat_dfs no_align [(''m0'', example_preds_a), (''m1'', example_preds_b)] = Inr (out, names)"
    by (simp add: concat_dfs_def concat_axis1_def strip_cols_append_name_def columns_def
        example_preds_a_def example_preds_b_def)
  have c: "columns example_preds_a =
      [[''scorer'', ''bodyparts''], [''paw'', ''x''], [''paw'', ''y''], [''paw'', ''likelihood''],
       [''nose'', ''x''], [''nose'', ''y''], [''nose'', ''likelihood '']]"
    "columns example_preds_b =
      [[''scorer'', ''bodyparts''], [''paw'', ''x''], [''paw'', ''y''], [''paw'', ''likelihood'']]"
    "ncols example_preds_a = 7"
    by (simp_all add: columns_def ncols_def example_preds_a_def example_preds_b_def)
  have u: "[0..<2] = [0, 1::nat]"
    by (simp add: upt_conv_Cons)
  from concat_dfs_names_and_columns [OF r] show ?thesis
    using r by (simp add: c u flat_name_def py_strip_def is_space_def)
qed

theorem concat_dfs_shape_witness:
  "\<exists>out names. concat_dfs no_align [(''m0'', example_preds_a), (''m1'', example_preds_b)]
           = Inr (out, names)
     \<and> nrows out = 2 \<and> ncols out = 11"
proof -
  have h: "list_all (\<lambda>(m, d). index d = index example_preds_a) [(''m1'', example_preds_b)]"
    "[] \<notin> set (columns example_preds_a)"
    by (simp_all add: example_preds_a_def example_preds_b_def columns_def)
  have s: "nrows example_preds_a = 2"
    "sum_list (map (\<lambda>(m, d). ncols d) [(''m0'', example_preds_a), (''m1'', example_preds_b)]) = 11"
    by (simp_all add: example_preds_a_def example_preds_b_def nrows_def ncols_def)
  from concat_dfs_shape [OF refl h, where align = no_align and model_name = "''m0''"]
  show ?thesis
    by (simp only: s)
qed

subsection \<open>Columns and means\<close>

lemma nrows_put_col: "nrows (put_col f k v) = nrows f"
  by (simp add: put_col_def nrows_def)

lemma index_put_col: "index (put_col f k v) = index f"
  by (simp add: put_col_def)

lemma columns_put_col:
  "columns (put_col f k v) = (if k \<in> set (columns f) then columns f else columns f @ [k])"
  by (auto simp: put_col_def columns_def comp_def case_prod_beta intro: map_idI)

lemma distinct_columns_put_col:
  "distinct (columns f) \<Longrightarrow> distinct (columns (put_col f k v))"
  by (simp add: columns_put_col)

lemma columns_put_col_subset: "set (columns f) \<subseteq> set (columns (put_col f k v))"
  by (auto simp: columns_put_col)

lemma map_of_replace:
  "map_of (map (\<lambda>(l, x). if l = k then (l, v) else (l, x)) cs) k' =
     (if k' = k then (if k \<in> fst ` set cs then Some v else None) else map_of cs k')"
  by (induction cs) (auto split: if_splits)

lemma map_of_snoc:
  "k \<notin> fst ` set cs \<Longrightarrow>
     map_of (cs @ [(k, v)]) k' = (if k' = k then Some v else map_of cs k')"
  by (induction cs) auto

lemma column_cells_put_col:
  "column_cells (put_col f k v) k' = (if k' = k then Some v else column_cells f k')"
  by (simp add: put_col_def column_cells_def columns_def map_of_replace map_of_snoc
      del: map_of_append)

lemma filter_replace_other:
  "k' \<noteq> k \<Longrightarrow>
     filter (\<lambda>c. fst c = k') (map (\<lambda>(l, x). if l = k then (l, v) else (l, x)) cs)
       = filter (\<lambda>c. fst c = k') cs"
  by (induction cs) auto

lemma filter_put_col_other:
  "k' \<noteq> k \<Longrightarrow> filter (\<lambda>c. fst c = k') (cols (put_col f k v)) = filter (\<lambda>c. fst c = k') (cols f)"
  by (simp add: put_col_def filter_replace_other)

lemma keypoint_row_put_col:
  "k \<notin> set keys \<Longrightarrow> keypoint_row (put_col f k v) keys i = keypoint_row f keys i"
  by (induction keys) (auto simp: keypoint_row_def filter_put_col_other)

lemma wf_frame_put_col:
  "wf_frame f \<Longrightarrow> length v = nrows f \<Longrightarrow> wf_frame (put_col f k v)"
  by (auto simp: wf_frame_def put_col_def nrows_def list_all_iff)

lemma no_str_put_col:
  "no_str f \<Longrightarrow> \<not> list_ex is_str v \<Longrightarrow> no_str (put_col f k v)"
  by (auto simp: no_str_def put_col_def list_all_iff split: if_splits)

text \<open>A label that is carried once at most is stored on the usual path.\<close>

lemma filter_label_distinct:
  "distinct (map fst cs) \<Longrightarrow> length (filter (\<lambda>c. fst c = k) cs) \<le> 1"
proof (induction cs)
  case Nil
  show ?case by simp
next
  case (Cons c cs)
  show ?case
  proof (cases "fst c = k")
    case True
    with Cons.prems have "k \<notin> fst ` set cs" by auto
    then have "filter (\<lambda>c. fst c = k) cs = []" by (auto simp: filter_empty_conv)
    with True show ?thesis by simp
  next
    case False
    with Cons show ?thesis by simp
  qed
qed

lemma dup_count_distinct: "distinct (columns f) \<Longrightarrow> dup_count f k \<le> 1"
  using filter_label_distinct [of "cols f" k] by (simp add: dup_count_def columns_def)

lemma setitem_single: "dup_count f k \<le> 1 \<Longrightarrow> setitem f k v = setitem_whole f k v"
  by (simp add: setitem_def)

lemma setitem_series_single:
  "dup_count f k \<le> 1 \<Longrightarrow> setitem_series f k v = setitem_whole f k v"
  by (simp add: setitem_series_def)

lemma setitem_whole_same_length:
  "length v = nrows f \<Longrightarrow> setitem_whole f k v = Inr (put_col f k v)"
  by (auto simp: setitem_whole_def ensure_valid_index_def nrows_def)

lemma columns_ensure_valid_index: "columns (ensure_valid_index f v) = columns f"
  by (simp add: ensure_valid_index_def columns_def comp_def case_prod_beta)

lemma wf_frame_ensure_valid_index:
  "wf_frame f \<Longrightarrow> wf_frame (ensure_valid_index f v)"
  by (auto simp: wf_frame_def ensure_valid_index_def nrows_def range_index_def list_all_iff)

lemma no_str_ensure_valid_index:
  "no_str f \<Longrightarrow> no_str (ensure_valid_index f v)"
  by (auto simp: no_str_def ensure_valid_index_def list_all_iff list_ex_iff)

text \<open>The mean of each row, and when it is defined.\<close>

lemma row_mean_Inr: "row_mean fmean r = Inr x \<Longrightarrow> x = mean_of_present fmean r"
  by (auto simp: row_mean_def mean_of_present_def split: if_splits)

lemma mean_rows_Inr:
  "mean_rows fmean rs = Inr ms \<Longrightarrow>
     length ms = length rs \<and> (\<forall>i<length rs. ms ! i = mean_of_present fmean (rs ! i))"
proof (induction rs arbitrary: ms)
  case Nil
  then show ?case by simp
next
  case (Cons r rs)
  from Cons.prems obtain x xs where
    x: "row_mean fmean r = Inr x" and xs: "mean_rows fmean rs = Inr xs" and ms: "ms = x # xs"
    by (auto split: sum.splits)
  from Cons.IH [OF xs] row_mean_Inr [OF x] show ?case
    by (auto simp: ms nth_Cons split: nat.splits)
qed

lemma mean_axis1_getitem_cols:
  assumes "getitem_cols f keys = Inr sel" and "mean_axis1 fmean sel = Inr ms"
  shows "length ms = nrows f"
    and "list_all (\<lambda>i. ms ! i = mean_of_present fmean (keypoint_row f keys i)) [0..<nrows f]"
proof -
  from assms(1) have sel: "index sel = index f"
    "cols sel = concat (map (\<lambda>k. filter (\<lambda>c. fst c = k) (cols f)) keys)"
    by (auto simp: getitem_cols_def split: if_splits)
  then have n: "nrows sel = nrows f" by (simp add: nrows_def)
  from mean_rows_Inr [OF assms(2) [unfolded mean_axis1_def]] have
    l: "length ms = nrows f"
    and m: "\<forall>i<nrows f. ms ! i = mean_of_present fmean (frame_rows sel ! i)"
    by (simp_all add: frame_rows_def n)
  show "length ms = nrows f" by (rule l)
  have "frame_rows sel ! i = keypoint_row f keys i" if "i < nrows f" for i
    using that by (simp add: frame_rows_def n keypoint_row_def sel(2))
  with m show "list_all (\<lambda>i. ms ! i = mean_of_present fmean (keypoint_row f keys i)) [0..<nrows f]"
    by (simp add: list_all_iff)
qed

lemma mean_rows_succeeds:
  "\<forall>r \<in> set rs. \<not> list_ex is_str r \<Longrightarrow> \<exists>ms. mean_rows fmean rs = Inr ms"
  by (induction rs) (auto simp: row_mean_def)

lemma mean_axis1_succeeds:
  assumes "wf_frame f" and "no_str f"
  shows "\<exists>ms. mean_axis1 fmean f = Inr ms"
proof -
  have "\<not> list_ex is_str r" if "r \<in> set (frame_rows f)" for r
  proof -
    from that obtain i where i: "i < nrows f" and r: "r = map (\<lambda>c. snd c ! i) (cols f)"
      by (auto simp: frame_rows_def)
    have "\<not> is_str (snd c ! i)" if "c \<in> set (cols f)" for c
    proof -
      from that assms(1) i have "i < length (snd c)" by (auto simp: wf_frame_def list_all_iff)
      then have "snd c ! i \<in> set (snd c)" by simp
      with that assms(2) show ?thesis by (auto simp: no_str_def list_all_iff list_ex_iff)
    qed
    then show ?thesis by (auto simp: r list_ex_iff)
  qed
  then show ?thesis unfolding mean_axis1_def by (intro mean_rows_succeeds) blast
qed

text \<open>
  On a row of finite numbers the exact mean is their sum divided by their count.
\<close>

lemma exact_mean_numbers:
  assumes "xs \<noteq> []"
  shows "mean_of_present exact_mean (map Num xs) = Num (sum_list xs / of_nat (length xs))"
proof -
  have n: "nums (map Num xs) = xs" by (induction xs) auto
  have "\<not> list_all (\<lambda>c. c = NaN) (map Num xs)" using assms by (cases xs) auto
  moreover have "PosInf \<notin> set (map Num xs)" "NegInf \<notin> set (map Num xs)" by auto
  ultimately show ?thesis
    using assms by (simp add: mean_of_present_def exact_mean_def n arith_mean_def)
qed

lemma map_of_rename_other:
  "k \<noteq> old \<Longrightarrow> k \<noteq> new \<Longrightarrow>
     map_of (map (\<lambda>(l, v). (if l = old then new else l, v)) cs) k = map_of cs k"
  by (induction cs) auto

lemma column_cells_rename_other:
  "k \<noteq> old \<Longrightarrow> k \<noteq> new \<Longrightarrow> column_cells (rename_columns f old new) k = column_cells f k"
  by (simp add: column_cells_def rename_columns_def map_of_rename_other)

text \<open>Storing one scalar per column keeps the labels and the other columns.\<close>

lemma map_fst_put_each: "map fst (put_each cs k n xs) = map fst cs"
  by (induction cs k n xs rule: put_each.induct) auto

lemma filter_put_each_other:
  "k' \<noteq> k \<Longrightarrow>
     filter (\<lambda>c. fst c = k') (put_each cs k n xs) = filter (\<lambda>c. fst c = k') cs"
  by (induction cs k n xs rule: put_each.induct) auto

lemma map_of_put_each_other:
  "k' \<noteq> k \<Longrightarrow> map_of (put_each cs k n xs) k' = map_of cs k'"
  by (induction cs k n xs rule: put_each.induct) auto

lemma put_each_lengths:
  "list_all (\<lambda>c. length (snd c) = n) cs \<Longrightarrow>
     list_all (\<lambda>c. length (snd c) = n) (put_each cs k n xs)"
  by (induction cs k n xs rule: put_each.induct) auto

lemma put_each_no_str:
  "list_all (\<lambda>c. \<not> list_ex is_str (snd c)) cs \<Longrightarrow> \<not> list_ex is_str xs \<Longrightarrow>
     list_all (\<lambda>c. \<not> list_ex is_str (snd c)) (put_each cs k n xs)"
  by (induction cs k n xs rule: put_each.induct) (auto simp: list_ex_iff)

lemma dup_count_columns: "0 < dup_count f k \<Longrightarrow> k \<in> set (columns f)"
  by (auto simp: dup_count_def columns_def filter_empty_conv)

lemma dup_count_count_list: "dup_count f k = count_list (columns f) k"
proof -
  have "length (filter (\<lambda>c. fst c = k) cs) = count_list (map fst cs) k" for cs :: "('a \<times> cell list) list"
    by (induction cs) auto
  then show ?thesis by (simp add: dup_count_def columns_def)
qed

lemma count_list_butlast:
  "x \<notin> set (butlast xs) \<Longrightarrow> count_list xs x \<le> 1"
proof (cases "xs = []")
  case True
  then show ?thesis by simp
next
  case False
  assume x: "x \<notin> set (butlast xs)"
  from False have "xs = butlast xs @ [last xs]" by simp
  then have "count_list xs x = count_list (butlast xs) x + count_list [last xs] x"
    by (metis count_list_append)
  moreover have "count_list (butlast xs) x = 0" using x by (simp add: count_list_0_iff)
  ultimately show ?thesis by simp
qed

text \<open>What an assignment leaves when it returns.\<close>

lemma setitem_whole_Inr:
  "setitem_whole f k v = Inr f' \<Longrightarrow>
     f' = put_col (ensure_valid_index f v) k v \<and> nrows (ensure_valid_index f v) = length v"
  by (auto simp: setitem_whole_def split: if_splits)

lemma setitem_Inr:
  "setitem f k v = Inr f' \<Longrightarrow>
     (1 < dup_count f k \<and> f' = f\<lparr>cols := put_each (cols f) k (nrows f) v\<rparr>)
     \<or> setitem_whole f k v = Inr f'"
  by (auto simp: setitem_def split: if_splits)

lemma setitem_series_Inr:
  "setitem_series f k v = Inr f' \<Longrightarrow>
     (1 < dup_count f k \<and> dup_count f k = length v
        \<and> (\<exists>xs. f' = f\<lparr>cols := put_each (cols f) k (nrows f) xs\<rparr>))
     \<or> setitem_whole f k v = Inr f'"
  by (auto simp: setitem_series_def split: if_splits sum.splits)

lemma columns_put_each: "columns (f\<lparr>cols := put_each (cols f) k n xs\<rparr>) = columns f"
  by (simp add: columns_def map_fst_put_each)

lemma setitem_whole_columns:
  assumes "setitem_whole f k v = Inr f'"
  shows "columns f' = (if k \<in> set (columns f) then columns f else columns f @ [k])"
proof -
  from setitem_whole_Inr [OF assms] have "f' = put_col (ensure_valid_index f v) k v" by simp
  then show ?thesis by (simp only: columns_put_col columns_ensure_valid_index)
qed

lemma setitem_columns:
  assumes "setitem f k v = Inr f'"
  shows "columns f' = (if k \<in> set (columns f) then columns f else columns f @ [k])"
  using setitem_Inr [OF assms]
proof
  assume a: "1 < dup_count f k \<and> f' = f\<lparr>cols := put_each (cols f) k (nrows f) v\<rparr>"
  then have "k \<in> set (columns f)" by (intro dup_count_columns) simp
  with a show ?thesis by (simp add: columns_put_each)
next
  assume "setitem_whole f k v = Inr f'"
  then show ?thesis by (rule setitem_whole_columns)
qed

lemma setitem_column_cells:
  "dup_count f k \<le> 1 \<Longrightarrow> setitem f k v = Inr f' \<Longrightarrow> column_cells f' k = Some v"
  by (auto simp: setitem_def setitem_whole_def column_cells_put_col split: if_splits)

lemma setitem_nrows:
  "dup_count f k \<le> 1 \<Longrightarrow> setitem f k v = Inr f' \<Longrightarrow> nrows f' = length v"
  by (auto simp: setitem_def setitem_whole_def nrows_put_col split: if_splits)

lemma setitem_nonempty_index:
  "dup_count f k \<le> 1 \<Longrightarrow> index f \<noteq> [] \<Longrightarrow> setitem f k v = Inr f' \<Longrightarrow> f' = put_col f k v"
  by (auto simp: setitem_def setitem_whole_def ensure_valid_index_def split: if_splits)

text \<open>Assignments to other labels keep the row means.\<close>

lemma keypoint_row_put_each:
  "k \<notin> set keys \<Longrightarrow>
     keypoint_row (f\<lparr>cols := put_each (cols f) k n xs\<rparr>) keys i = keypoint_row f keys i"
  by (induction keys) (auto simp: keypoint_row_def filter_put_each_other)

lemma has_row_means_put_col:
  assumes "has_row_means fmean f f keys" and "key \<notin> set keys" and "key \<noteq> ''mean''"
  shows "has_row_means fmean (put_col f key v) (put_col f key v) keys"
  using assms
  by (auto simp: has_row_means_def column_cells_put_col nrows_put_col keypoint_row_put_col
      split: option.splits)

lemma has_row_means_put_each:
  assumes "has_row_means fmean f f keys" and "key \<notin> set keys" and "key \<noteq> ''mean''"
  shows "has_row_means fmean (f\<lparr>cols := put_each (cols f) key n xs\<rparr>)
           (f\<lparr>cols := put_each (cols f) key n xs\<rparr>) keys"
proof -
  have "nrows (f\<lparr>cols := put_each (cols f) key n xs\<rparr>) = nrows f" by (simp add: nrows_def)
  moreover have "column_cells (f\<lparr>cols := put_each (cols f) key n xs\<rparr>) ''mean''
      = column_cells f ''mean''"
    using assms(3) by (simp add: column_cells_def map_of_put_each_other)
  ultimately show ?thesis
    using assms(1,2)
    by (auto simp: has_row_means_def keypoint_row_put_each split: option.splits)
qed

lemma has_row_means_setitem_whole:
  assumes m: "has_row_means fmean f f keys" and k: "key \<notin> set keys" "key \<noteq> ''mean''"
    and s: "setitem_whole f key v = Inr f'"
  shows "has_row_means fmean f' f' keys"
proof (cases "index f = [] \<and> v \<noteq> []")
  case False
  then have "ensure_valid_index f v = f" by (auto simp: ensure_valid_index_def)
  then have "f' = put_col f key v" using setitem_whole_Inr [OF s] by simp
  then show ?thesis using has_row_means_put_col [OF m k] by simp
next
  case True
  let ?n = "length v"
  let ?g = "\<lparr>index = range_index ?n, cols = map (\<lambda>(l, x). (l, replicate ?n NaN)) (cols f)\<rparr>"
  have e: "ensure_valid_index f v = ?g" using True by (simp add: ensure_valid_index_def)
  then have f': "f' = put_col ?g key v" using setitem_whole_Inr [OF s] by simp
  from m obtain ms where "column_cells f ''mean'' = Some ms"
    by (auto simp: has_row_means_def split: option.splits)
  then have c: "column_cells ?g ''mean'' = Some (replicate ?n NaN)"
    by (simp add: column_cells_def map_of_map)
  have n: "nrows ?g = ?n" by (simp add: nrows_def range_index_def)
  have "mean_of_present fmean (keypoint_row ?g keys i) = NaN" if "i < ?n" for i
  proof -
    have "\<forall>c \<in> set (keypoint_row ?g keys i). c = NaN"
      using that by (auto simp: keypoint_row_def)
    then show ?thesis by (simp add: mean_of_present_def list_all_iff)
  qed
  then have "has_row_means fmean ?g ?g keys"
    using c n by (simp add: has_row_means_def list_all_iff)
  then show ?thesis unfolding f' using k by (rule has_row_means_put_col)
qed

lemma has_row_means_setitem:
  assumes m: "has_row_means fmean f f keys" and k: "key \<notin> set keys" "key \<noteq> ''mean''"
    and s: "setitem f key v = Inr f'"
  shows "has_row_means fmean f' f' keys"
  using setitem_Inr [OF s]
proof
  assume "1 < dup_count f key \<and> f' = f\<lparr>cols := put_each (cols f) key (nrows f) v\<rparr>"
  then show ?thesis using has_row_means_put_each [OF m k] by simp
next
  assume "setitem_whole f key v = Inr f'"
  with m k show ?thesis by (rule has_row_means_setitem_whole)
qed

subsection \<open>\<open>get_precomputed_error\<close>\<close>

lemma get_precomputed_error_example:
  "get_precomputed_error fmean example_errors [''A'', ''B'', ''C''] ''m0'' =
     (example_errors_after (fmean [Num 1, Num 2]),
      Inr (example_errors_after (fmean [Num 1, Num 2])))"
  by (simp add: get_precomputed_error_def example_errors_def example_errors_after_def
      setitem_scalar_def put_col_def columns_def nrows_def getitem_cols_def mean_axis1_def
      frame_rows_def row_mean_def setitem_series_def setitem_whole_def dup_count_def
      ensure_valid_index_def rename_columns_def upt_conv_Cons)

text \<open>
  C4 does not hold of \<open>get_precomputed_error\<close>: the table passed to it is not left
  unchanged. On the table of pixel errors of the keypoints A, B and C, the call leaves
  the caller's table with the two added columns \<open>model_name\<close> and \<open>mean\<close> and its
  first column renamed to \<open>img_file\<close>, whatever float64 arithmetic gives for the mean
  of 1 and 2.
\<close>

theorem get_precomputed_error_changes_input:
  "fst (get_precomputed_error fmean example_errors [''A'', ''B'', ''C''] ''m0'')
     = example_errors_after (fmean [Num 1, Num 2])
   \<and> fst (get_precomputed_error fmean example_errors [''A'', ''B'', ''C''] ''m0'')
     \<noteq> example_errors"
  by (simp add: get_precomputed_error_example)
    (simp add: example_errors_after_def example_errors_def)

text \<open>
  The caller's table is changed also when the call raises: the column \<open>model_name\<close>
  is stored before the keypoint columns are looked up.
\<close>

lemma get_precomputed_error_changes_input_on_error:
  "get_precomputed_error fmean example_errors [''A'', ''Z'', ''C''] ''m0'' =
     (\<lparr>index = [Num 0],
       cols = [(''Unnamed: 0'', [Str ''img0.png'']), (''A'', [Num 1]), (''B'', [Num 2]),
               (''C'', [Num 3]), (''model_name'', [Str ''m0''])]\<rparr>,
      Inl KeyError)"
  by (simp add: get_precomputed_error_def example_errors_def setitem_scalar_def put_col_def
      columns_def nrows_def getitem_cols_def)

text \<open>
  The call returns, with the row means in the column \<open>mean\<close>, on every well-formed
  table that has the keypoint columns averaged, no string in them, a first column that
  is not called \<open>mean\<close>, and not as many columns called \<open>mean\<close> as it has rows, two
  or more.
\<close>

lemma get_precomputed_error_mean:
  assumes wf: "wf_frame df"
    and k: "set (butlast kps) \<subseteq> set (columns df)"
    and ns: "list_all (\<lambda>c. \<not> list_ex is_str (snd c))
               (filter (\<lambda>c. fst c \<in> set (butlast kps)) (cols df))"
    and mn: "''model_name'' \<notin> set (butlast kps)"
    and h: "take 1 (columns df) \<noteq> [''mean'']"
    and d: "dup_count df ''mean'' \<le> 1 \<or> dup_count df ''mean'' \<noteq> nrows df"
  shows "\<exists>out. get_precomputed_error fmean df kps m = (out, Inr out)
           \<and> has_row_means fmean out df (butlast kps)"
proof -
  let ?df1 = "setitem_scalar df ''model_name'' (Str m)"
  let ?sel = "\<lparr>index = index ?df1,
      cols = concat (map (\<lambda>k. filter (\<lambda>c. fst c = k) (cols ?df1)) (butlast kps))\<rparr>"
  have n1: "nrows ?df1 = nrows df" by (simp add: setitem_scalar_def nrows_put_col)
  have w1: "wf_frame ?df1" using wf by (simp add: setitem_scalar_def wf_frame_put_col)
  have c1: "set (butlast kps) \<subseteq> set (columns ?df1)"
    using k columns_put_col_subset [of df] by (auto simp: setitem_scalar_def)
  have sel: "getitem_cols ?df1 (butlast kps) = Inr ?sel"
    using c1 by (auto simp: getitem_cols_def list_all_iff)
  have wsel: "wf_frame ?sel"
    using w1 by (auto simp: wf_frame_def list_all_iff nrows_def)
  have "\<not> list_ex is_str (snd c)" if "c \<in> set (cols ?sel)" for c
  proof -
    from that obtain k' where k': "k' \<in> set (butlast kps)"
      and c: "c \<in> set (filter (\<lambda>c. fst c = k') (cols ?df1))" by auto
    from k' mn have "k' \<noteq> ''model_name''" by auto
    then have "filter (\<lambda>c. fst c = k') (cols ?df1) = filter (\<lambda>c. fst c = k') (cols df)"
      unfolding setitem_scalar_def by (rule filter_put_col_other)
    with c k' have "c \<in> set (filter (\<lambda>c. fst c \<in> set (butlast kps)) (cols df))" by auto
    with ns show ?thesis unfolding list_all_iff by blast
  qed
  then have nsel: "no_str ?sel" by (simp add: no_str_def list_all_iff)
  from mean_axis1_succeeds [OF wsel nsel] obtain ms where ms: "mean_axis1 fmean ?sel = Inr ms"
    by blast
  note mm = mean_axis1_getitem_cols [OF sel ms]
  have "dup_count ?df1 ''mean'' = dup_count df ''mean''"
    by (simp add: dup_count_def setitem_scalar_def filter_put_col_other)
  with d mm(1) n1 have "setitem_series ?df1 ''mean'' ms = setitem_whole ?df1 ''mean'' ms"
    by (auto simp: setitem_series_def)
  also have "\<dots> = Inr (put_col ?df1 ''mean'' ms)"
    using mm(1) by (rule setitem_whole_same_length)
  finally have s: "setitem_series ?df1 ''mean'' ms = Inr (put_col ?df1 ''mean'' ms)" .
  let ?df2 = "put_col ?df1 ''mean'' ms"
  have "columns ?df2 \<noteq> []" by (auto simp: columns_put_col)
  then obtain c0 cs where c0: "columns ?df2 = c0 # cs" by (cases "columns ?df2") auto
  let ?out = "rename_columns ?df2 c0 ''img_file''"
  have r: "get_precomputed_error fmean df kps m = (?out, Inr ?out)"
    by (simp add: get_precomputed_error_def Let_def sel ms s c0)
  have "hd (columns ?df2) \<noteq> ''mean''"
    using h unfolding columns_put_col setitem_scalar_def
    by (cases "columns df") (auto split: if_splits)
  then have c0': "c0 \<noteq> ''mean''" using c0 by simp
  have "column_cells ?out ''mean'' = Some ms"
    using c0' by (simp add: column_cells_rename_other column_cells_put_col)
  moreover have "keypoint_row ?df1 (butlast kps) i = keypoint_row df (butlast kps) i" for i
    unfolding setitem_scalar_def using mn by (rule keypoint_row_put_col)
  ultimately have "has_row_means fmean ?out df (butlast kps)"
    using mm by (simp add: has_row_means_def n1)
  with r show ?thesis by blast
qed

subsection \<open>\<open>compute_confidence\<close>\<close>

lemma chunks3_third:
  "3 * c + 2 < length xs \<Longrightarrow> c < length (chunks3 xs) \<and> chunks3 xs ! c ! 2 = xs ! (3 * c + 2)"
proof (induction xs arbitrary: c rule: chunks3.induct)
  case (1 x y z xs)
  show ?case
  proof (cases c)
    case 0
    then show ?thesis by simp
  next
    case (Suc c')
    with 1 show ?thesis by simp
  qed
qed simp_all

lemma reshape3_Inr:
  "reshape3 n w rows = Inr tmp \<Longrightarrow> 0 < n \<and> w mod 3 = 0 \<and> tmp = map chunks3 rows"
  by (auto simp: reshape3_def split: if_splits)

lemma results_column:
  assumes wf: "list_all (\<lambda>c. length (snd c) = n) cs" and c: "3 * c + 2 < length cs"
  shows "map (\<lambda>r. r ! c)
           (map (map (\<lambda>t. t ! 2)) (map chunks3 (map (\<lambda>i. map (\<lambda>col. snd col ! i) cs) [0..<n])))
         = snd (cs ! (3 * c + 2))"
proof -
  have e: "map (\<lambda>t. t ! 2) (chunks3 (map (\<lambda>col. snd col ! i) cs)) ! c = snd (cs ! (3 * c + 2)) ! i"
    for i
  proof -
    have l: "3 * c + 2 < length (map (\<lambda>col. snd col ! i) cs)" using c by simp
    from chunks3_third [OF l] c show ?thesis by simp
  qed
  have "map (\<lambda>r. r ! c)
           (map (map (\<lambda>t. t ! 2)) (map chunks3 (map (\<lambda>i. map (\<lambda>col. snd col ! i) cs) [0..<n])))
         = map (\<lambda>i. map (\<lambda>t. t ! 2) (chunks3 (map (\<lambda>col. snd col ! i) cs)) ! c) [0..<n]"
    by (simp add: comp_def)
  also have "\<dots> = map (\<lambda>i. snd (cs ! (3 * c + 2)) ! i) [0..<n]"
    by (simp only: e)
  also have "\<dots> = snd (cs ! (3 * c + 2))"
  proof -
    have "length (snd (cs ! (3 * c + 2))) = n"
      using wf c by (simp add: list_all_length)
    then show ?thesis using map_nth [of "snd (cs ! (3 * c + 2))"] by simp
  qed
  finally show ?thesis .
qed

lemma assign_keypoints_columns:
  "assign_keypoints f k results c ks = Inr f' \<Longrightarrow> set ks \<subseteq> set (columns f) \<Longrightarrow>
     columns f' = columns f"
proof (induction ks arbitrary: f c)
  case Nil
  then show ?case by simp
next
  case (Cons a ks)
  from Cons.prems(1) obtain f1 where
    f1: "setitem f a (map (\<lambda>r. r ! c) results) = Inr f1"
    and l: "assign_keypoints f1 k results (c + 1) ks = Inr f'"
    by (auto split: if_splits sum.splits)
  have c1: "columns f1 = columns f" using setitem_columns [OF f1] Cons.prems(2) by simp
  with Cons.IH [OF l] Cons.prems(2) show ?case by simp
qed

lemma assign_keypoints_cells:
  "assign_keypoints f k results c ks = Inr f' \<Longrightarrow> index f \<noteq> [] \<Longrightarrow> distinct ks \<Longrightarrow>
     distinct (columns f) \<Longrightarrow>
     index f' = index f \<and> (ks = [] \<or> c + length ks \<le> k)
     \<and> (\<forall>j<length ks. column_cells f' (ks ! j) = Some (map (\<lambda>r. r ! (c + j)) results))
     \<and> (\<forall>k'. k' \<notin> set ks \<longrightarrow> column_cells f' k' = column_cells f k')"
proof (induction ks arbitrary: f c)
  case Nil
  then show ?case by simp
next
  case (Cons a ks)
  from Cons.prems(1) obtain f1 where
    c: "c < k"
    and f1: "setitem f a (map (\<lambda>r. r ! c) results) = Inr f1"
    and l: "assign_keypoints f1 k results (c + 1) ks = Inr f'"
    by (auto split: if_splits sum.splits)
  have p: "f1 = put_col f a (map (\<lambda>r. r ! c) results)"
    using dup_count_distinct [OF Cons.prems(4)] Cons.prems(2) f1 by (rule setitem_nonempty_index)
  then have i1: "index f1 = index f" by (simp add: index_put_col)
  from Cons.prems(3) have d: "distinct ks" and a: "a \<notin> set ks" by simp_all
  have n1: "index f1 \<noteq> []" using i1 Cons.prems(2) by simp
  have d1: "distinct (columns f1)" unfolding p using Cons.prems(4) by (rule distinct_columns_put_col)
  note step = Cons.IH [OF l n1 d d1]
  from step have e1: "index f' = index f1" by (rule conjunct1)
  have ih: "index f' = index f" "ks = [] \<or> c + 1 + length ks \<le> k"
      "\<forall>j<length ks. column_cells f' (ks ! j) = Some (map (\<lambda>r. r ! (c + 1 + j)) results)"
      "\<forall>k'. k' \<notin> set ks \<longrightarrow> column_cells f' k' = column_cells f1 k'"
    using e1 i1 apply (simp only:)
    using step apply (rule conjunct2 [THEN conjunct1])
    using step apply (rule conjunct2 [THEN conjunct2, THEN conjunct1])
    using step apply (rule conjunct2 [THEN conjunct2, THEN conjunct2])
    done
  have fa: "column_cells f' a = Some (map (\<lambda>r. r ! c) results)"
    using ih(4) a by (simp add: p column_cells_put_col)
  show ?case
  proof (intro conjI allI impI)
    show "index f' = index f" by (rule ih(1))
    show "a # ks = [] \<or> c + length (a # ks) \<le> k" using ih(2) c by auto
  next
    fix j assume j: "j < length (a # ks)"
    show "column_cells f' ((a # ks) ! j) = Some (map (\<lambda>r. r ! (c + j)) results)"
    proof (cases j)
      case 0
      then show ?thesis using fa by simp
    next
      case (Suc j')
      then have "j' < length ks" using j by simp
      with ih(3) have "column_cells f' (ks ! j') = Some (map (\<lambda>r. r ! (c + 1 + j')) results)"
        by blast
      then show ?thesis using Suc by simp
    qed
  next
    fix k' assume "k' \<notin> set (a # ks)"
    then have "k' \<notin> set ks" "k' \<noteq> a" by auto
    with ih(4) have "column_cells f' k' = column_cells f1 k'" by blast
    then show "column_cells f' k' = column_cells f k'"
      using \<open>k' \<noteq> a\<close> by (simp add: p column_cells_put_col)
  qed
qed

lemma columns_empty_frame: "columns (empty_frame kps) = kps"
  by (simp add: empty_frame_def columns_def comp_def)

lemma assign_keypoints_from_empty:
  assumes a: "assign_keypoints (empty_frame kps) k results 0 kps = Inr df1"
    and n: "results \<noteq> []" and d: "distinct kps"
  shows "length kps \<le> k"
    and "\<forall>c<length kps. column_cells df1 (kps ! c) = Some (map (\<lambda>r. r ! c) results)"
    and "kps \<noteq> [] \<longrightarrow> index df1 \<noteq> []"
    and "columns df1 = kps"
proof -
  show "columns df1 = kps"
    using assign_keypoints_columns [OF a] by (simp add: columns_empty_frame)
  show "length kps \<le> k"
    and "\<forall>c<length kps. column_cells df1 (kps ! c) = Some (map (\<lambda>r. r ! c) results)"
    and "kps \<noteq> [] \<longrightarrow> index df1 \<noteq> []"
  proof (atomize (full), cases kps)
    case Nil
    then show "length kps \<le> k
      \<and> (\<forall>c<length kps. column_cells df1 (kps ! c) = Some (map (\<lambda>r. r ! c) results))
      \<and> (kps \<noteq> [] \<longrightarrow> index df1 \<noteq> [])" by simp
  next
    case (Cons k0 ks)
    let ?v0 = "map (\<lambda>r. r ! 0) results"
    from a obtain f1 where
      k: "0 < k"
      and f1: "setitem (empty_frame kps) k0 ?v0 = Inr f1"
      and l: "assign_keypoints f1 k results (0 + 1) ks = Inr df1"
      unfolding Cons by (auto split: if_splits sum.splits)
    have d0: "dup_count (empty_frame kps) k0 \<le> 1"
      using d by (intro dup_count_distinct) (simp add: columns_empty_frame)
    have "nrows f1 = length results" using setitem_nrows [OF d0 f1] by simp
    then have i1: "index f1 \<noteq> []" using n by (auto simp: nrows_def)
    from d have dk: "distinct ks" and k0: "k0 \<notin> set ks" by (simp_all add: Cons)
    have "columns f1 = kps"
      using setitem_columns [OF f1] by (simp add: columns_empty_frame Cons)
    then have d1: "distinct (columns f1)" using d by simp
    note step = assign_keypoints_cells [OF l i1 dk d1]
    from step have e1: "index df1 = index f1" by (rule conjunct1)
    from step have e2: "ks = [] \<or> 0 + 1 + length ks \<le> k" by (rule conjunct2 [THEN conjunct1])
    from step have e3: "\<forall>j<length ks. column_cells df1 (ks ! j) = Some (map (\<lambda>r. r ! (0 + 1 + j)) results)"
      by (rule conjunct2 [THEN conjunct2, THEN conjunct1])
    from step have e4: "\<forall>k'. k' \<notin> set ks \<longrightarrow> column_cells df1 k' = column_cells f1 k'"
      by (rule conjunct2 [THEN conjunct2, THEN conjunct2])
    have c0: "column_cells df1 k0 = Some ?v0"
      using e4 k0 setitem_column_cells [OF d0 f1] by simp
    have "column_cells df1 (kps ! c) = Some (map (\<lambda>r. r ! c) results)" if "c < length kps" for c
    proof (cases c)
      case 0
      then show ?thesis using c0 by (simp add: Cons)
    next
      case (Suc j)
      then have "j < length ks" using that by (simp add: Cons)
      with e3 have "column_cells df1 (ks ! j) = Some (map (\<lambda>r. r ! (0 + 1 + j)) results)" by blast
      then show ?thesis by (simp add: Cons Suc)
    qed
    moreover have "length kps \<le> k" using e2 k by (auto simp: Cons)
    moreover have "index df1 \<noteq> []" using e1 i1 by simp
    ultimately show "length kps \<le> k
      \<and> (\<forall>c<length kps. column_cells df1 (kps ! c) = Some (map (\<lambda>r. r ! c) results))
      \<and> (kps \<noteq> [] \<longrightarrow> index df1 \<noteq> [])" by blast
  qed
qed

lemma collect_results_columns:
  assumes r: "collect_results fmean ix k results set_col kps m = Inr out"
    and n: "results \<noteq> []" and d: "distinct kps"
    and res: "''model_name'' \<notin> set kps" "''mean'' \<notin> set kps" "''set'' \<notin> set kps"
      "''img_file'' \<notin> set kps"
    and len: "case set_col of None \<Rightarrow> True | Some s \<Rightarrow> length s = length results"
  shows "length kps \<le> k"
    and "\<forall>c<length kps. column_cells out (kps ! c) = Some (map (\<lambda>r. r ! c) results)"
    and "case set_col of
           None \<Rightarrow> ''set'' \<notin> set (columns out) \<and> ''img_file'' \<notin> set (columns out)
         | Some s \<Rightarrow> column_cells out ''set'' = Some s \<and> column_cells out ''img_file'' = Some ix"
proof -
  from r obtain df1 sel ms df3 where
    a: "assign_keypoints (empty_frame kps) k results 0 kps = Inr df1"
    and sel: "getitem_cols (setitem_scalar df1 ''model_name'' (Str m)) (butlast kps) = Inr sel"
    and ms: "mean_axis1 fmean sel = Inr ms"
    and df3: "setitem_series (setitem_scalar df1 ''model_name'' (Str m)) ''mean'' ms = Inr df3"
    and fin: "(case set_col of None \<Rightarrow> Inr df3
               | Some s \<Rightarrow> (case setitem df3 ''set'' s of Inl e \<Rightarrow> Inl e
                            | Inr df4 \<Rightarrow> setitem df4 ''img_file'' ix)) = Inr out"
    by (auto simp: collect_results_def split: sum.splits)
  let ?df2 = "setitem_scalar df1 ''model_name'' (Str m)"
  note A = assign_keypoints_from_empty [OF a n d]
  show "length kps \<le> k" by (rule A(1))
  have cols2: "columns ?df2 = kps @ [''model_name'']"
    using res(1) by (simp add: setitem_scalar_def columns_put_col A(4))
  have d2: "dup_count ?df2 ''mean'' \<le> 1"
    using d res(1) by (intro dup_count_distinct) (simp add: cols2)
  have "setitem_whole ?df2 ''mean'' ms = Inr (put_col ?df2 ''mean'' ms)"
    using mean_axis1_getitem_cols(1) [OF sel ms] by (rule setitem_whole_same_length)
  with df3 have df3': "df3 = put_col ?df2 ''mean'' ms"
    by (simp add: setitem_series_single [OF d2])
  have i3: "index df3 = index df1"
    by (simp add: df3' setitem_scalar_def index_put_col)
  have c3: "column_cells df3 k' = column_cells df1 k'" if "k' \<in> set kps" for k'
    using that res(1,2) by (auto simp: df3' setitem_scalar_def column_cells_put_col)
  have cols3: "columns df3 = kps @ [''model_name'', ''mean'']"
    using res(2) by (simp add: df3' columns_put_col cols2)
  have d3: "dup_count df3 ''set'' \<le> 1"
    using d res(1,2) by (intro dup_count_distinct) (simp add: cols3)
  show "\<forall>c<length kps. column_cells out (kps ! c) = Some (map (\<lambda>r. r ! c) results)"
    and "case set_col of
           None \<Rightarrow> ''set'' \<notin> set (columns out) \<and> ''img_file'' \<notin> set (columns out)
         | Some s \<Rightarrow> column_cells out ''set'' = Some s \<and> column_cells out ''img_file'' = Some ix"
  proof (atomize (full), cases set_col)
    case None
    then have o: "out = df3" using fin by simp
    have "column_cells out (kps ! c) = Some (map (\<lambda>r. r ! c) results)" if "c < length kps" for c
      using that A(2) c3 [of "kps ! c"] by (simp add: o)
    moreover have "''set'' \<notin> set (columns out) \<and> ''img_file'' \<notin> set (columns out)"
      using res(3,4) by (simp add: o cols3)
    ultimately show "(\<forall>c<length kps. column_cells out (kps ! c) = Some (map (\<lambda>r. r ! c) results))
      \<and> (case set_col of
           None \<Rightarrow> ''set'' \<notin> set (columns out) \<and> ''img_file'' \<notin> set (columns out)
         | Some s \<Rightarrow> column_cells out ''set'' = Some s \<and> column_cells out ''img_file'' = Some ix)"
      using None by simp
  next
    case (Some s)
    with fin obtain df4 where
      df4: "setitem df3 ''set'' s = Inr df4" and o: "setitem df4 ''img_file'' ix = Inr out"
      by (auto split: sum.splits)
    have "nrows df4 = length results" using setitem_nrows [OF d3 df4] len Some by simp
    then have i4: "index df4 \<noteq> []" using n by (auto simp: nrows_def)
    have cols4: "columns df4 = kps @ [''model_name'', ''mean'', ''set'']"
      using setitem_columns [OF df4] res(3) by (simp add: cols3)
    have d4: "dup_count df4 ''img_file'' \<le> 1"
      using d res(1,2,3) by (intro dup_count_distinct) (simp add: cols4)
    have o': "out = put_col df4 ''img_file'' ix" using d4 i4 o by (rule setitem_nonempty_index)
    have s4: "column_cells df4 ''set'' = Some s" using d3 df4 by (rule setitem_column_cells)
    have "column_cells out (kps ! c) = Some (map (\<lambda>r. r ! c) results)" if "c < length kps" for c
    proof -
      from that have "kps \<noteq> []" by auto
      with A(3) i3 have "index df3 \<noteq> []" by simp
      with d3 have "df4 = put_col df3 ''set'' s" using df4 by (rule setitem_nonempty_index)
      moreover have m: "kps ! c \<in> set kps" using that by simp
      moreover have "kps ! c \<noteq> ''set''" "kps ! c \<noteq> ''img_file''"
        using m res(3,4) by auto
      moreover have "column_cells df3 (kps ! c) = Some (map (\<lambda>r. r ! c) results)"
        using that A(2) c3 [OF m] by simp
      ultimately show ?thesis
        by (simp add: o' column_cells_put_col)
    qed
    moreover have "column_cells out ''set'' = Some s \<and> column_cells out ''img_file'' = Some ix"
      using s4 by (simp add: o' column_cells_put_col)
    ultimately show "(\<forall>c<length kps. column_cells out (kps ! c) = Some (map (\<lambda>r. r ! c) results))
      \<and> (case set_col of
           None \<Rightarrow> ''set'' \<notin> set (columns out) \<and> ''img_file'' \<notin> set (columns out)
         | Some s \<Rightarrow> column_cells out ''set'' = Some s \<and> column_cells out ''img_file'' = Some ix)"
      using Some by simp
  qed
qed

text \<open>When the assignments return.\<close>

lemma setitem_whole_succeeds:
  assumes "index f = [] \<or> nrows f = length v"
  shows "setitem_whole f k v = Inr (put_col (ensure_valid_index f v) k v)"
    and "nrows (ensure_valid_index f v) = length v"
  using assms
  by (auto simp: setitem_whole_def ensure_valid_index_def nrows_def range_index_def)

lemma range_index_ensure_valid_index:
  "index f = range_index (nrows f) \<Longrightarrow>
     index (ensure_valid_index f v) = range_index (nrows (ensure_valid_index f v))"
  by (auto simp: ensure_valid_index_def nrows_def range_index_def)

lemma setitem_succeeds:
  assumes wf: "wf_frame f" and ns: "no_str f"
    and r: "index f = [] \<or> nrows f = length v"
    and ri: "index f = range_index (nrows f)"
    and nv: "\<not> list_ex is_str v"
  shows "\<exists>f'. setitem f k v = Inr f' \<and> wf_frame f' \<and> no_str f'
    \<and> (index f' = [] \<or> nrows f' = length v) \<and> index f' = range_index (nrows f')
    \<and> set (columns f) \<subseteq> set (columns f')"
proof (cases "1 < dup_count f k \<and> dup_count f k = length v")
  case True
  let ?f' = "f\<lparr>cols := put_each (cols f) k (nrows f) v\<rparr>"
  have n: "nrows ?f' = nrows f" by (simp add: nrows_def)
  have "setitem f k v = Inr ?f'" using True by (simp add: setitem_def)
  moreover have "wf_frame ?f'"
    using wf put_each_lengths [of "nrows f" "cols f" k v] by (simp add: wf_frame_def n)
  moreover have "no_str ?f'"
    using ns nv put_each_no_str [of "cols f" v k "nrows f"] by (simp add: no_str_def)
  moreover have "index ?f' = [] \<or> nrows ?f' = length v" using r by (simp add: n)
  moreover have "index ?f' = range_index (nrows ?f')" using ri by (simp add: n)
  moreover have "columns ?f' = columns f" by (rule columns_put_each)
  ultimately show ?thesis by auto
next
  case False
  let ?f' = "put_col (ensure_valid_index f v) k v"
  note s = setitem_whole_succeeds(1) [OF r, of k] setitem_whole_succeeds(2) [OF r]
  have "setitem f k v = Inr ?f'" using False s(1) by (auto simp: setitem_def)
  moreover have "wf_frame ?f'"
    using wf s(2) by (simp add: wf_frame_put_col wf_frame_ensure_valid_index)
  moreover have "no_str ?f'"
    using ns nv by (simp add: no_str_put_col no_str_ensure_valid_index)
  moreover have "index ?f' = [] \<or> nrows ?f' = length v" using s(2) by (simp add: nrows_put_col)
  moreover have "index ?f' = range_index (nrows ?f')"
    using range_index_ensure_valid_index [OF ri, of v] by (simp add: index_put_col nrows_put_col)
  moreover have "set (columns f) \<subseteq> set (columns ?f')"
    using columns_put_col_subset [of "ensure_valid_index f v" k v]
    by (simp add: columns_ensure_valid_index)
  ultimately show ?thesis by blast
qed

lemma setitem_returns:
  assumes "index f = [] \<or> nrows f = length v"
  shows "\<exists>f'. setitem f k v = Inr f' \<and> (index f' = [] \<or> nrows f' = length v)"
proof (cases "1 < dup_count f k \<and> dup_count f k = length v")
  case True
  then have "setitem f k v = Inr (f\<lparr>cols := put_each (cols f) k (nrows f) v\<rparr>)"
    by (simp add: setitem_def)
  moreover have "nrows (f\<lparr>cols := put_each (cols f) k (nrows f) v\<rparr>) = nrows f"
    by (simp add: nrows_def)
  ultimately show ?thesis using assms by auto
next
  case False
  note s = setitem_whole_succeeds(1) [OF assms, of k] setitem_whole_succeeds(2) [OF assms]
  have "setitem f k v = Inr (put_col (ensure_valid_index f v) k v)"
    using False s(1) by (auto simp: setitem_def)
  then show ?thesis using s(2) by (simp add: nrows_put_col)
qed

text \<open>On a \<open>RangeIndex\<close> the row labelled \<open>j\<close> is row \<open>j\<close>.\<close>

lemma filter_eq_upt: "filter (\<lambda>p. p = j) [0..<n] = (if j < n then [j] else [])"
  by (induction n) auto

lemma series_item_range:
  assumes "j < n"
  shows "series_item (range_index n) v j = Inr (v ! j)"
proof -
  have "filter (\<lambda>p. range_index n ! p = Num (of_nat j)) [0..<length (range_index n)]
      = filter (\<lambda>p. p = j) [0..<n]"
    by (rule filter_cong) (auto simp: range_index_def)
  also have "\<dots> = [j]" using assms by (simp add: filter_eq_upt)
  finally have f: "filter (\<lambda>p. range_index n ! p = Num (of_nat j)) [0..<length (range_index n)]
      = [j]" .
  have "range_index n \<noteq> []" using assms by (auto simp: range_index_def)
  moreover have "\<not> list_ex is_str (range_index n)" by (auto simp: range_index_def list_ex_iff)
  ultimately show ?thesis by (simp add: series_item_def f)
qed

lemma series_items_range:
  "\<forall>j \<in> set js. j < n \<Longrightarrow> series_items (range_index n) v js = Inr (map (\<lambda>j. v ! j) js)"
  by (induction js) (simp_all add: series_item_range)

lemma setitem_series_succeeds:
  assumes ri: "index f = range_index (nrows f)" and l: "length v = nrows f"
  shows "\<exists>f'. setitem_series f k v = Inr f' \<and> index f' = index f"
proof (cases "1 < dup_count f k \<and> dup_count f k = length v")
  case True
  have "series_items (index f) v [0..<length v] = Inr (map (\<lambda>j. v ! j) [0..<length v])"
    using series_items_range [of "[0..<length v]" "nrows f" v] ri l by simp
  with True show ?thesis by (simp add: setitem_series_def)
next
  case False
  then have "setitem_series f k v = setitem_whole f k v" by (auto simp: setitem_series_def)
  with setitem_whole_same_length [OF l, of k] show ?thesis by (simp add: index_put_col)
qed

lemma assign_keypoints_succeeds:
  assumes "wf_frame f" and "no_str f" and "index f = [] \<or> nrows f = length results"
    and "index f = range_index (nrows f)"
    and "ks = [] \<or> c + length ks \<le> k"
    and "\<forall>j<k. \<not> list_ex is_str (map (\<lambda>r. r ! j) results)"
  shows "\<exists>f'. assign_keypoints f k results c ks = Inr f' \<and> wf_frame f' \<and> no_str f'
    \<and> (index f' = [] \<or> nrows f' = length results) \<and> index f' = range_index (nrows f')
    \<and> set (columns f) \<subseteq> set (columns f')"
  using assms
proof (induction ks arbitrary: f c)
  case Nil
  then show ?case by simp
next
  case (Cons a ks)
  let ?v = "map (\<lambda>r. r ! c) results"
  from Cons.prems(5) have c: "c < k" and rest: "ks = [] \<or> (c + 1) + length ks \<le> k" by auto
  from Cons.prems(3) have pre: "index f = [] \<or> nrows f = length ?v" by simp
  have v: "\<not> list_ex is_str ?v" using Cons.prems(6) c by blast
  from setitem_succeeds [OF Cons.prems(1,2) pre Cons.prems(4) v, of a] obtain f1 where
    f1: "setitem f a ?v = Inr f1" "wf_frame f1" "no_str f1"
      "index f1 = [] \<or> nrows f1 = length results" "index f1 = range_index (nrows f1)"
      "set (columns f) \<subseteq> set (columns f1)"
    by auto
  from Cons.IH [OF f1(2,3,4,5) rest Cons.prems(6)] obtain f' where
    f': "assign_keypoints f1 k results (c + 1) ks = Inr f'" "wf_frame f'" "no_str f'"
      "index f' = [] \<or> nrows f' = length results" "index f' = range_index (nrows f')"
      "set (columns f1) \<subseteq> set (columns f')"
    by blast
  with f1(1,6) c show ?case by auto
qed

lemma collect_results_succeeds:
  assumes mn: "''model_name'' \<notin> set (butlast kps)"
    and l: "length kps \<le> k"
    and v: "\<forall>j<k. \<not> list_ex is_str (map (\<lambda>r. r ! j) results)"
    and s: "case set_col of None \<Rightarrow> True | Some s \<Rightarrow> length s = length results"
    and ix: "length ix = length results"
  shows "\<exists>out. collect_results fmean ix k results set_col kps m = Inr out"
proof -
  have e: "wf_frame (empty_frame kps)" "no_str (empty_frame kps)"
    "index (empty_frame kps) = [] \<or> nrows (empty_frame kps) = length results"
    "index (empty_frame kps) = range_index (nrows (empty_frame kps))"
    by (auto simp: empty_frame_def wf_frame_def no_str_def nrows_def list_all_iff
        range_index_def)
  have "kps = [] \<or> 0 + length kps \<le> k" using l by simp
  from assign_keypoints_succeeds [OF e this v] obtain df1 where
    a: "assign_keypoints (empty_frame kps) k results 0 kps = Inr df1"
    and w1: "wf_frame df1" and n1: "no_str df1"
    and r1: "index df1 = [] \<or> nrows df1 = length results"
    and ri1: "index df1 = range_index (nrows df1)"
    and c1: "set kps \<subseteq> set (columns df1)"
    by (auto simp: columns_empty_frame)
  let ?df2 = "setitem_scalar df1 ''model_name'' (Str m)"
  have w2: "wf_frame ?df2" using w1 by (simp add: setitem_scalar_def wf_frame_put_col)
  have c2: "set kps \<subseteq> set (columns ?df2)"
    using c1 columns_put_col_subset [of df1] by (auto simp: setitem_scalar_def)
  have ri2: "index ?df2 = range_index (nrows ?df2)"
    using ri1 by (simp add: setitem_scalar_def index_put_col nrows_put_col)
  let ?sel = "\<lparr>index = index ?df2,
      cols = concat (map (\<lambda>k. filter (\<lambda>c. fst c = k) (cols ?df2)) (butlast kps))\<rparr>"
  have sel: "getitem_cols ?df2 (butlast kps) = Inr ?sel"
    using c2 by (auto simp: getitem_cols_def list_all_iff dest: in_set_butlastD)
  have wsel: "wf_frame ?sel"
    using w2 by (auto simp: wf_frame_def list_all_iff nrows_def)
  have "\<not> list_ex is_str (snd c)" if "c \<in> set (cols ?sel)" for c
  proof -
    from that obtain k' where k': "k' \<in> set (butlast kps)"
      and c: "c \<in> set (filter (\<lambda>c. fst c = k') (cols ?df2))" by auto
    from k' mn have "k' \<noteq> ''model_name''" by auto
    then have "filter (\<lambda>c. fst c = k') (cols ?df2) = filter (\<lambda>c. fst c = k') (cols df1)"
      unfolding setitem_scalar_def by (rule filter_put_col_other)
    with c have "c \<in> set (cols df1)" by simp
    with n1 show ?thesis by (auto simp: no_str_def list_all_iff)
  qed
  then have nsel: "no_str ?sel" by (simp add: no_str_def list_all_iff)
  from mean_axis1_succeeds [OF wsel nsel] obtain ms where ms: "mean_axis1 fmean ?sel = Inr ms"
    by blast
  from setitem_series_succeeds [OF ri2 mean_axis1_getitem_cols(1) [OF sel ms], of "''mean''"]
  obtain df3 where df3: "setitem_series ?df2 ''mean'' ms = Inr df3"
    and i3: "index df3 = index ?df2" by blast
  have r3: "index df3 = [] \<or> nrows df3 = length results"
    using r1 by (simp add: i3 nrows_def setitem_scalar_def index_put_col)
  show ?thesis
  proof (cases set_col)
    case None
    then show ?thesis
      using a sel ms df3 by (simp add: collect_results_def)
  next
    case (Some sc)
    with s have ls: "length sc = length results" by simp
    from r3 ls have p3: "index df3 = [] \<or> nrows df3 = length sc" by simp
    from setitem_returns [OF p3, of "''set''"] obtain df4 where
      df4: "setitem df3 ''set'' sc = Inr df4" and r4: "index df4 = [] \<or> nrows df4 = length sc"
      by blast
    from r4 ls ix have p4: "index df4 = [] \<or> nrows df4 = length ix" by simp
    from setitem_returns [OF p4, of "''img_file''"] obtain out where
      "setitem df4 ''img_file'' ix = Inr out" by blast
    then show ?thesis
      using a sel ms df3 df4 by (simp add: collect_results_def Some)
  qed
qed

text \<open>
  \<open>compute_confidence\<close> returns for every well-formed table with at least one row,
  a column count that is a multiple of 3 or one more, no string among the cells of its
  triplets and no more keypoint names than triplets.
\<close>

lemma compute_confidence_returns:
  assumes wf: "wf_frame df" and n: "0 < nrows df" and m: "ncols df mod 3 \<noteq> 2"
    and l: "length keypoint_names \<le> ncols df div 3"
    and mn: "''model_name'' \<notin> set (butlast keypoint_names)"
    and num: "list_all (\<lambda>c. \<not> list_ex is_str (snd c))
                (if ncols df mod 3 = 1 then butlast (cols df) else cols df)"
  shows "\<exists>out. compute_confidence fmean df keypoint_names model_name = Inr out"
proof (cases "ncols df mod 3 = 1")
  case True
  let ?cs = "butlast (cols df)"
  let ?rows = "map (\<lambda>i. map (\<lambda>col. snd col ! i) ?cs) [0..<nrows df]"
  let ?results = "map (map (\<lambda>t. t ! 2)) (map chunks3 ?rows)"
  let ?s = "snd (last (cols df))"
  have fr: "frame_rows (iloc_butlast df) = ?rows"
    by (simp add: frame_rows_def iloc_butlast_def nrows_def)
  have w: "(ncols df - 1) mod 3 = 0" using True by presburger
  have t: "reshape3 (nrows df) (ncols df - 1) ?rows = Inr (map chunks3 ?rows)"
    using n w by (simp add: reshape3_def)
  have ne: "cols df \<noteq> []" using True by (auto simp: ncols_def)
  have ls: "length ?s = nrows df"
    using wf ne last_in_set [OF ne] by (auto simp: wf_frame_def list_all_iff)
  have wfc: "list_all (\<lambda>c. length (snd c) = nrows df) ?cs"
    using wf by (auto simp: wf_frame_def list_all_iff dest: in_set_butlastD)
  have k: "(ncols df - 1) div 3 = ncols df div 3" using True by presburger
  have v: "\<forall>j<(ncols df - 1) div 3. \<not> list_ex is_str (map (\<lambda>r. r ! j) ?results)"
  proof (intro allI impI)
    fix j assume "j < (ncols df - 1) div 3"
    then have b: "3 * j + 2 < length ?cs" using w by (simp add: ncols_def; presburger)
    have "map (\<lambda>r. r ! j) ?results = snd (?cs ! (3 * j + 2))"
      using wfc b by (rule results_column)
    moreover have "?cs ! (3 * j + 2) \<in> set ?cs" using b by simp
    ultimately show "\<not> list_ex is_str (map (\<lambda>r. r ! j) ?results)"
      using num True by (simp add: list_all_iff)
  qed
  have s: "case Some ?s of None \<Rightarrow> True | Some s \<Rightarrow> length s = length ?results"
    using ls by simp
  have ix: "length (index df) = length ?results" by (simp add: nrows_def)
  from collect_results_succeeds [OF mn _ v s ix, where m = model_name and fmean = fmean] l k
  obtain out where "collect_results fmean (index df) ((ncols df - 1) div 3) ?results (Some ?s)
      keypoint_names model_name = Inr out" by auto
  then show ?thesis
    using True t by (simp add: compute_confidence_def fr)
next
  case False
  let ?cs = "cols df"
  let ?rows = "map (\<lambda>i. map (\<lambda>col. snd col ! i) ?cs) [0..<nrows df]"
  let ?results = "map (map (\<lambda>t. t ! 2)) (map chunks3 ?rows)"
  have fr: "frame_rows df = ?rows" by (simp add: frame_rows_def)
  have w: "ncols df mod 3 = 0" using False m by presburger
  have t: "reshape3 (nrows df) (ncols df) ?rows = Inr (map chunks3 ?rows)"
    using n w by (simp add: reshape3_def)
  have wfc: "list_all (\<lambda>c. length (snd c) = nrows df) ?cs"
    using wf by (simp add: wf_frame_def)
  have v: "\<forall>j<ncols df div 3. \<not> list_ex is_str (map (\<lambda>r. r ! j) ?results)"
  proof (intro allI impI)
    fix j assume "j < ncols df div 3"
    then have b: "3 * j + 2 < length ?cs" using w by (simp add: ncols_def; presburger)
    have "map (\<lambda>r. r ! j) ?results = snd (?cs ! (3 * j + 2))"
      using wfc b by (rule results_column)
    moreover have "?cs ! (3 * j + 2) \<in> set ?cs" using b by simp
    ultimately show "\<not> list_ex is_str (map (\<lambda>r. r ! j) ?results)"
      using num False by (simp add: list_all_iff)
  qed
  have s: "case None :: cell list option of None \<Rightarrow> True | Some s \<Rightarrow> length s = length ?results"
    by simp
  have ix: "length (index df) = length ?results" by (simp add: nrows_def)
  from collect_results_succeeds [OF mn l v s ix, where m = model_name and fmean = fmean]
  obtain out where "collect_results fmean (index df) (ncols df div 3) ?results None
      keypoint_names model_name = Inr out" by auto
  then show ?thesis
    using False t by (simp add: compute_confidence_def fr)
qed

lemma compute_confidence_example:
  "compute_confidence exact_mean example_triplets [''A'', ''B'', ''C''] ''m0''
     = Inr example_confidence"
  by (simp add: compute_confidence_def example_triplets_def example_confidence_def
      ncols_def nrows_def reshape3_def frame_rows_def iloc_butlast_def collect_results_def
      empty_frame_def setitem_def setitem_series_def setitem_whole_def dup_count_def
      ensure_valid_index_def put_col_def columns_def range_index_def setitem_scalar_def
      getitem_cols_def mean_axis1_def row_mean_def exact_mean_def arith_mean_def
      upt_conv_Cons)

text \<open>
  C8. Whenever \<open>compute_confidence\<close> returns for a well-formed table (the keypoint
  names are distinct and none of them is \<open>model_name\<close>, \<open>mean\<close>, \<open>set\<close> or
  \<open>img_file\<close>), the table has at least one row and a column count that is a multiple of
  3 or one more; the column of keypoint number \<open>c\<close> in the result holds the cells of
  input column \<open>3 * c + 2\<close>, the third slot of triplet \<open>c\<close>; and when the column
  count is one more than a multiple of 3 the result has the column \<open>set\<close> with the
  cells of the last input column and the column \<open>img_file\<close> with the row index of the
  input, while otherwise it has neither of the two columns. That the call returns on
  such tables is \<open>compute_confidence_returns\<close>.
\<close>

theorem compute_confidence_columns:
  assumes r: "compute_confidence fmean df keypoint_names model_name = Inr out"
    and wf: "wf_frame df" and d: "distinct keypoint_names"
    and res: "''model_name'' \<notin> set keypoint_names" "''mean'' \<notin> set keypoint_names"
      "''set'' \<notin> set keypoint_names" "''img_file'' \<notin> set keypoint_names"
  shows "0 < nrows df \<and> ncols df mod 3 \<noteq> 2 \<and> length keypoint_names \<le> ncols df div 3
    \<and> (\<forall>c<length keypoint_names.
          column_cells out (keypoint_names ! c) = Some (snd (cols df ! (3 * c + 2))))
    \<and> (if ncols df mod 3 = 1
        then column_cells out ''set'' = Some (snd (last (cols df)))
             \<and> column_cells out ''img_file'' = Some (index df)
        else ''set'' \<notin> set (columns out) \<and> ''img_file'' \<notin> set (columns out))"
proof (cases "ncols df mod 3 = 1")
  case True
  let ?cs = "butlast (cols df)"
  let ?rows = "map (\<lambda>i. map (\<lambda>col. snd col ! i) ?cs) [0..<nrows df]"
  let ?results = "map (map (\<lambda>t. t ! 2)) (map chunks3 ?rows)"
  let ?s = "snd (last (cols df))"
  have fr: "frame_rows (iloc_butlast df) = ?rows"
    by (simp add: frame_rows_def iloc_butlast_def nrows_def)
  from r True obtain tmp where
    t: "reshape3 (nrows df) (ncols df - 1) ?rows = Inr tmp"
    and c: "collect_results fmean (index df) ((ncols df - 1) div 3) (map (map (\<lambda>t. t ! 2)) tmp)
              (Some ?s) keypoint_names model_name = Inr out"
    by (auto simp: compute_confidence_def fr split: sum.splits)
  from reshape3_Inr [OF t] have n: "0 < nrows df" and w: "(ncols df - 1) mod 3 = 0"
    and tmp: "tmp = map chunks3 ?rows" by simp_all
  have ne: "cols df \<noteq> []" using True by (auto simp: ncols_def)
  have ls: "length ?s = nrows df"
    using wf ne last_in_set [OF ne] by (auto simp: wf_frame_def list_all_iff)
  have wfc: "list_all (\<lambda>c. length (snd c) = nrows df) ?cs"
    using wf by (auto simp: wf_frame_def list_all_iff dest: in_set_butlastD)
  have rne: "?results \<noteq> []" using n by simp
  have len: "case Some ?s of None \<Rightarrow> True | Some s \<Rightarrow> length s = length ?results"
    using ls by simp
  note C = collect_results_columns [OF c [unfolded tmp] rne d res len]
  have k: "(ncols df - 1) div 3 = ncols df div 3" using True by presburger
  have "column_cells out (keypoint_names ! c) = Some (snd (cols df ! (3 * c + 2)))"
    if "c < length keypoint_names" for c
  proof -
    have "c < (ncols df - 1) div 3" using that C(1) by simp
    then have b: "3 * c + 2 < length ?cs" using w by (simp add: ncols_def; presburger)
    from C(2) that have "column_cells out (keypoint_names ! c) = Some (map (\<lambda>r. r ! c) ?results)"
      by blast
    also have "map (\<lambda>r. r ! c) ?results = snd (?cs ! (3 * c + 2))"
      using wfc b by (rule results_column)
    also have "?cs ! (3 * c + 2) = cols df ! (3 * c + 2)"
      using b by (simp add: nth_butlast)
    finally show ?thesis .
  qed
  then show ?thesis
    using True n C(1) C(3) k by simp
next
  case False
  let ?cs = "cols df"
  let ?rows = "map (\<lambda>i. map (\<lambda>col. snd col ! i) ?cs) [0..<nrows df]"
  let ?results = "map (map (\<lambda>t. t ! 2)) (map chunks3 ?rows)"
  have fr: "frame_rows df = ?rows"
    by (simp add: frame_rows_def)
  from r False obtain tmp where
    t: "reshape3 (nrows df) (ncols df) ?rows = Inr tmp"
    and c: "collect_results fmean (index df) (ncols df div 3) (map (map (\<lambda>t. t ! 2)) tmp)
              None keypoint_names model_name = Inr out"
    by (auto simp: compute_confidence_def fr split: sum.splits)
  from reshape3_Inr [OF t] have n: "0 < nrows df" and w: "ncols df mod 3 = 0"
    and tmp: "tmp = map chunks3 ?rows" by simp_all
  have wfc: "list_all (\<lambda>c. length (snd c) = nrows df) ?cs"
    using wf by (simp add: wf_frame_def)
  have rne: "?results \<noteq> []" using n by simp
  have len: "case None :: cell list option of None \<Rightarrow> True | Some s \<Rightarrow> length s = length ?results"
    by simp
  note C = collect_results_columns [OF c [unfolded tmp] rne d res len]
  have "column_cells out (keypoint_names ! c) = Some (snd (cols df ! (3 * c + 2)))"
    if "c < length keypoint_names" for c
  proof -
    have "c < ncols df div 3" using that C(1) by simp
    then have b: "3 * c + 2 < length ?cs" using w by (simp add: ncols_def; presburger)
    from C(2) that have "column_cells out (keypoint_names ! c) = Some (map (\<lambda>r. r ! c) ?results)"
      by blast
    also have "map (\<lambda>r. r ! c) ?results = snd (?cs ! (3 * c + 2))"
      using wfc b by (rule results_column)
    finally show ?thesis .
  qed
  then show ?thesis
    using False n w C(1) C(3) by simp
qed

theorem compute_confidence_columns_witness:
  "compute_confidence exact_mean example_triplets [''A'', ''B'', ''C''] ''m0'' = Inr example_confidence
   \<and> ncols example_triplets mod 3 = 1
   \<and> column_cells example_confidence ''A'' = Some [Num 1, Num 3]
   \<and> column_cells example_confidence ''B'' = Some [Num 2, Num 4]
   \<and> column_cells example_confidence ''C'' = Some [Num 3, Num 9]
   \<and> column_cells example_confidence ''set'' = Some [Str ''train'', Str ''test'']
   \<and> column_cells example_confidence ''img_file'' = Some [Str ''img0.png'', Str ''img1.png'']"
proof -
  have wf: "wf_frame example_triplets"
    by (simp add: wf_frame_def example_triplets_def nrows_def)
  have d: "distinct [''A'', ''B'', ''C'']" by simp
  have res: "''model_name'' \<notin> set [''A'', ''B'', ''C'']" "''mean'' \<notin> set [''A'', ''B'', ''C'']"
    "''set'' \<notin> set [''A'', ''B'', ''C'']" "''img_file'' \<notin> set [''A'', ''B'', ''C'']"
    by simp_all
  have n: "ncols example_triplets mod 3 = 1"
    by (simp add: ncols_def example_triplets_def)
  have c: "last (cols example_triplets) = (''set'', [Str ''train'', Str ''test''])"
    "index example_triplets = [Str ''img0.png'', Str ''img1.png'']"
    by (simp_all add: example_triplets_def)
  from compute_confidence_columns [OF compute_confidence_example wf d res]
  have a: "\<forall>c<length [''A'', ''B'', ''C''].
          column_cells example_confidence ([''A'', ''B'', ''C''] ! c)
            = Some (snd (cols example_triplets ! (3 * c + 2)))"
    and b: "column_cells example_confidence ''set'' = Some (snd (last (cols example_triplets)))
             \<and> column_cells example_confidence ''img_file'' = Some (index example_triplets)"
    using n by simp_all
  have "column_cells example_confidence ''A'' = Some [Num 1, Num 3]"
    using a [THEN spec, of 0] by (simp add: example_triplets_def)
  moreover have "column_cells example_confidence ''B'' = Some [Num 2, Num 4]"
    using a [THEN spec, of 1] by (simp add: example_triplets_def)
  moreover have "column_cells example_confidence ''C'' = Some [Num 3, Num 9]"
    using a [THEN spec, of 2] by (simp add: example_triplets_def)
  ultimately show ?thesis
    using b n compute_confidence_example by (simp add: c)
qed

subsection \<open>The mean column\<close>

lemma collect_results_mean:
  assumes r: "collect_results fmean ix k results set_col kps m = Inr out"
    and res: "''mean'' \<notin> set (butlast kps)" "''set'' \<notin> set (butlast kps)"
      "''img_file'' \<notin> set (butlast kps)"
  shows "has_row_means fmean out out (butlast kps)"
proof -
  from r obtain df1 sel ms df3 where
    a: "assign_keypoints (empty_frame kps) k results 0 kps = Inr df1"
    and sel: "getitem_cols (setitem_scalar df1 ''model_name'' (Str m)) (butlast kps) = Inr sel"
    and ms: "mean_axis1 fmean sel = Inr ms"
    and df3: "setitem_series (setitem_scalar df1 ''model_name'' (Str m)) ''mean'' ms = Inr df3"
    and fin: "(case set_col of None \<Rightarrow> Inr df3
               | Some s \<Rightarrow> (case setitem df3 ''set'' s of Inl e \<Rightarrow> Inl e
                            | Inr df4 \<Rightarrow> setitem df4 ''img_file'' ix)) = Inr out"
    by (auto simp: collect_results_def split: sum.splits)
  let ?df2 = "setitem_scalar df1 ''model_name'' (Str m)"
  note mm = mean_axis1_getitem_cols [OF sel ms]
  have "columns df1 = kps"
    using assign_keypoints_columns [OF a] by (simp add: columns_empty_frame)
  then have "count_list (columns ?df2) ''mean'' = count_list kps ''mean''"
    by (simp add: setitem_scalar_def columns_put_col)
  then have d2: "dup_count ?df2 ''mean'' \<le> 1"
    using count_list_butlast [OF res(1)] by (simp add: dup_count_count_list)
  have "setitem_whole ?df2 ''mean'' ms = Inr (put_col ?df2 ''mean'' ms)"
    using mm(1) by (rule setitem_whole_same_length)
  with df3 have df3': "df3 = put_col ?df2 ''mean'' ms"
    by (simp add: setitem_series_single [OF d2])
  have m3: "has_row_means fmean df3 df3 (butlast kps)"
    unfolding df3' using mm res(1)
    by (simp add: has_row_means_def column_cells_put_col nrows_put_col keypoint_row_put_col)
  show ?thesis
  proof (cases set_col)
    case None
    then show ?thesis using fin m3 by simp
  next
    case (Some s)
    with fin obtain df4 where
      df4: "setitem df3 ''set'' s = Inr df4" and o: "setitem df4 ''img_file'' ix = Inr out"
      by (auto split: sum.splits)
    have "has_row_means fmean df4 df4 (butlast kps)"
      using m3 res(2) _ df4 by (rule has_row_means_setitem) simp
    then show ?thesis
      using res(3) _ o by (rule has_row_means_setitem) simp
  qed
qed

lemma compute_confidence_mean:
  assumes "compute_confidence fmean df kps m = Inr out"
    and "''mean'' \<notin> set (butlast kps)" "''set'' \<notin> set (butlast kps)"
      "''img_file'' \<notin> set (butlast kps)"
  shows "has_row_means fmean out out (butlast kps)"
proof -
  from assms(1) obtain ix k results set_col where
    "collect_results fmean ix k results set_col kps m = Inr out"
    by (auto simp: compute_confidence_def split: if_splits sum.splits)
  then show ?thesis using assms(2-4) by (rule collect_results_mean)
qed

lemma compute_confidence_returns_mean:
  assumes wf: "wf_frame df" and n: "0 < nrows df" and m: "ncols df mod 3 \<noteq> 2"
    and l: "length kps \<le> ncols df div 3"
    and num: "list_all (\<lambda>c. \<not> list_ex is_str (snd c))
                (if ncols df mod 3 = 1 then butlast (cols df) else cols df)"
    and mn: "''model_name'' \<notin> set (butlast kps)"
    and res: "''mean'' \<notin> set (butlast kps)" "''set'' \<notin> set (butlast kps)"
      "''img_file'' \<notin> set (butlast kps)"
  shows "\<exists>out. compute_confidence fmean df kps model = Inr out
           \<and> has_row_means fmean out out (butlast kps)"
proof -
  from compute_confidence_returns [OF wf n m l mn num] obtain out where
    "compute_confidence fmean df kps model = Inr out" by blast
  with compute_confidence_mean [OF this res] show ?thesis by blast
qed

lemma get_precomputed_error_two_means:
  "get_precomputed_error exact_mean example_two_means [''A'', ''B'', ''C''] ''m0''
     = (example_two_means_out, Inr example_two_means_out)"
  by (simp add: get_precomputed_error_def example_two_means_def example_two_means_out_def
      setitem_scalar_def put_col_def columns_def nrows_def getitem_cols_def mean_axis1_def
      frame_rows_def row_mean_def setitem_series_def dup_count_def series_item_def
      exact_mean_def arith_mean_def rename_columns_def upt_conv_Cons)

text \<open>
  C1 does not hold of every input table of \<open>get_precomputed_error\<close>. When the table has
  two rows and two columns that are called \<open>mean\<close> already, and the mean of A and B
  is 3/2 in the first row and 4 in the second, the call returns with 3/2 in both rows
  of the first column \<open>mean\<close> and 4 in both rows of the second one: pandas stores the
  mean of row \<open>j\<close> in the \<open>j\<close>-th of the columns with that label. The second row of
  the column \<open>mean\<close> does not hold the mean of that row.
\<close>

theorem mean_column_counterexample:
  "get_precomputed_error exact_mean example_two_means [''A'', ''B'', ''C''] ''m0''
     = (example_two_means_out, Inr example_two_means_out)
   \<and> column_cells example_two_means_out ''mean'' = Some [Num (3 / 2), Num (3 / 2)]
   \<and> mean_of_present exact_mean (keypoint_row example_two_means [''A'', ''B''] 1) = Num 4
   \<and> \<not> has_row_means exact_mean example_two_means_out example_two_means [''A'', ''B'']"
  by (simp add: get_precomputed_error_two_means)
    (simp add: example_two_means_def example_two_means_out_def column_cells_def
      has_row_means_def keypoint_row_def mean_of_present_def exact_mean_def arith_mean_def
      nrows_def upt_conv_Cons)

text \<open>
  C1, amended. \<open>get_precomputed_error\<close> returns on every well-formed table that has
  the columns of the keypoint names without the last one, with no string in them (none
  of these names being \<open>model_name\<close>), whose first column is not called \<open>mean\<close>, and
  that does not have as many columns called \<open>mean\<close> as it has rows, two or more; and
  the column \<open>mean\<close> of its result then holds in every row the mean of the cells of
  that row in the columns of the input labelled by the keypoint names without the last
  one. \<open>compute_confidence\<close> returns on every well-formed table with at least one
  row, a column count that is a multiple of 3 or one more, no string among the cells of
  its triplets and no more keypoint names than triplets (none of the names but the last
  being \<open>model_name\<close>, \<open>mean\<close>, \<open>set\<close> or \<open>img_file\<close>); and the column \<open>mean\<close> of
  its result then holds in every row the mean of the cells of that row in the keypoint
  columns of the result without the last keypoint. The mean of a row is \<open>NaN\<close> when no
  value is present in it and what float64 arithmetic gives for its cells otherwise, for
  every such arithmetic \<open>fmean\<close>; in exact arithmetic it is the sum of the numbers
  divided by their count (\<open>exact_mean_numbers\<close>).
\<close>

theorem mean_column_excludes_last_keypoint:
  "(wf_frame df
      \<longrightarrow> set (butlast keypoint_names) \<subseteq> set (columns df)
      \<longrightarrow> list_all (\<lambda>c. \<not> list_ex is_str (snd c))
            (filter (\<lambda>c. fst c \<in> set (butlast keypoint_names)) (cols df))
      \<longrightarrow> ''model_name'' \<notin> set (butlast keypoint_names)
      \<longrightarrow> take 1 (columns df) \<noteq> [''mean'']
      \<longrightarrow> dup_count df ''mean'' \<le> 1 \<or> dup_count df ''mean'' \<noteq> nrows df
      \<longrightarrow> (\<exists>out. get_precomputed_error fmean df keypoint_names model_name = (out, Inr out)
             \<and> has_row_means fmean out df (butlast keypoint_names)))
   \<and> (wf_frame df
      \<longrightarrow> 0 < nrows df
      \<longrightarrow> ncols df mod 3 \<noteq> 2
      \<longrightarrow> length keypoint_names \<le> ncols df div 3
      \<longrightarrow> list_all (\<lambda>c. \<not> list_ex is_str (snd c))
            (if ncols df mod 3 = 1 then butlast (cols df) else cols df)
      \<longrightarrow> ''model_name'' \<notin> set (butlast keypoint_names)
      \<longrightarrow> ''mean'' \<notin> set (butlast keypoint_names)
      \<longrightarrow> ''set'' \<notin> set (butlast keypoint_names)
      \<longrightarrow> ''img_file'' \<notin> set (butlast keypoint_names)
      \<longrightarrow> (\<exists>conf. compute_confidence fmean df keypoint_names model_name = Inr conf
             \<and> has_row_means fmean conf conf (butlast keypoint_names)))"
  using get_precomputed_error_mean [of df keypoint_names fmean model_name]
    compute_confidence_returns_mean [of df keypoint_names fmean model_name]
  by blast

theorem mean_column_excludes_last_keypoint_witness:
  "get_precomputed_error exact_mean example_errors [''A'', ''B'', ''C''] ''m0''
      = (example_errors_after (Num (3 / 2)), Inr (example_errors_after (Num (3 / 2))))
   \<and> has_row_means exact_mean (example_errors_after (Num (3 / 2))) example_errors [''A'', ''B'']
   \<and> column_cells (example_errors_after (Num (3 / 2))) ''mean'' = Some [Num (3 / 2)]
   \<and> compute_confidence exact_mean example_triplets [''A'', ''B'', ''C''] ''m0''
      = Inr example_confidence
   \<and> has_row_means exact_mean example_confidence example_confidence [''A'', ''B'']
   \<and> column_cells example_confidence ''mean'' = Some [Num (3 / 2), Num (7 / 2)]"
proof -
  have e: "exact_mean [Num 1, Num 2] = Num (3 / 2)"
    by (simp add: exact_mean_def arith_mean_def)
  note g = get_precomputed_error_example [of exact_mean, unfolded e]
  have "\<exists>out. get_precomputed_error exact_mean example_errors [''A'', ''B'', ''C''] ''m0''
          = (out, Inr out)
        \<and> has_row_means exact_mean out example_errors (butlast [''A'', ''B'', ''C''])"
    using mean_column_excludes_last_keypoint [where df = example_errors
        and keypoint_names = "[''A'', ''B'', ''C'']" and model_name = "''m0''"
        and fmean = exact_mean]
    by (simp add: wf_frame_def example_errors_def columns_def nrows_def dup_count_def)
  then have a: "has_row_means exact_mean (example_errors_after (Num (3 / 2))) example_errors
      [''A'', ''B'']"
    by (simp add: g)
  have "\<exists>conf. compute_confidence exact_mean example_triplets [''A'', ''B'', ''C''] ''m0''
          = Inr conf
        \<and> has_row_means exact_mean conf conf (butlast [''A'', ''B'', ''C''])"
    using mean_column_excludes_last_keypoint [where df = example_triplets
        and keypoint_names = "[''A'', ''B'', ''C'']" and model_name = "''m0''"
        and fmean = exact_mean]
    by (simp add: wf_frame_def example_triplets_def columns_def nrows_def ncols_def)
  then have b: "has_row_means exact_mean example_confidence example_confidence [''A'', ''B'']"
    by (simp add: compute_confidence_example)
  show ?thesis
    using a b g compute_confidence_example
    by (simp add: column_cells_def example_errors_after_def example_confidence_def)
qed

subsection \<open>\<open>get_df_scatter\<close>\<close>









end
